theory Spec2Isabelle
  imports Complex_Main "HOL-Library.Char_ord" "HOL-Library.List_Lexorder" "HOL-Library.Multiset"
begin

section \<open>The trade log\<close>

text \<open>
  The three scripts read \<^verbatim>\<open>trading_log.csv\<close> into a pandas data frame. A row of the
  frame is a record; a cell that pandas holds as NaN (an empty CSV field) is \<open>None\<close>.
  Timestamps are whole seconds. Numeric cells are finite and arithmetic on them is exact
  (rounding and overflow of float64 are outside this development); what numpy does at a
  division by zero is modelled further down. The column \<^verbatim>\<open>position_after\<close> holds
  whole share counts, so \<^verbatim>\<open>int(row['position_after'])\<close> is the identity on a
  non-null cell.
\<close>

record log_row =
  timestamp :: int
  ticker :: string
  action :: string
  quantity :: "int option"
  close :: "real option"
  position_after :: "int option"
  cash_after :: "real option"

datatype py_error = IndexError | ValueError | ReadError

text \<open>\<^verbatim>\<open>Series.dropna()\<close> keeps the non-null cells in order.\<close>

fun dropna :: "'a option list \<Rightarrow> 'a list" where
  "dropna [] = []"
| "dropna (None # xs) = dropna xs"
| "dropna (Some v # xs) = v # dropna xs"

text \<open>\<^verbatim>\<open>Series.iloc[-1]\<close> raises IndexError on an empty series.\<close>

definition iloc_last :: "'a list \<Rightarrow> py_error + 'a" where
  "iloc_last xs = (if xs = [] then Inl IndexError else Inr (last xs))"

section \<open>numpy floats at a division by zero\<close>

text \<open>
  The valuations and prices are numpy float64 scalars. Dividing by a zero float64 raises
  no exception in numpy (only a RuntimeWarning): the quotient is \<open>+inf\<close>, \<open>-inf\<close> or
  NaN. A computed float is therefore a finite real, an infinity or NaN. Signed zeros are
  not distinguished.
\<close>

datatype npfloat = Fin real | PInf | NInf | NaN

definition np_div :: "real \<Rightarrow> real \<Rightarrow> npfloat" where
  "np_div a b =
     (if b \<noteq> 0 then Fin (a / b)
      else if a > 0 then PInf else if a < 0 then NInf else NaN)"

text \<open>The product of a float and a finite constant.\<close>

fun np_times :: "npfloat \<Rightarrow> real \<Rightarrow> npfloat" where
  "np_times (Fin a) c = Fin (a * c)"
| "np_times NaN c = NaN"
| "np_times PInf c = (if c > 0 then PInf else if c < 0 then NInf else NaN)"
| "np_times NInf c = (if c > 0 then NInf else if c < 0 then PInf else NaN)"

fun np_add :: "npfloat \<Rightarrow> npfloat \<Rightarrow> npfloat" where
  "np_add (Fin a) (Fin b) = Fin (a + b)"
| "np_add NaN y = NaN"
| "np_add x NaN = NaN"
| "np_add PInf NInf = NaN"
| "np_add NInf PInf = NaN"
| "np_add PInf y = PInf"
| "np_add x PInf = PInf"
| "np_add NInf y = NInf"
| "np_add x NInf = NInf"

text \<open>Comparisons: every comparison with NaN is false.\<close>

fun np_gt :: "npfloat \<Rightarrow> npfloat \<Rightarrow> bool" where
  "np_gt NaN y = False"
| "np_gt x NaN = False"
| "np_gt (Fin a) (Fin b) = (a > b)"
| "np_gt PInf PInf = False"
| "np_gt PInf y = True"
| "np_gt NInf y = False"
| "np_gt (Fin a) NInf = True"
| "np_gt (Fin a) PInf = False"

definition np_lt :: "npfloat \<Rightarrow> npfloat \<Rightarrow> bool" where
  "np_lt x y = np_gt y x"

text \<open>A cell compared as a float: a null cell is NaN.\<close>

definition cell_gt :: "real option \<Rightarrow> real option \<Rightarrow> bool" where
  "cell_gt x y = (case (x, y) of (Some a, Some b) \<Rightarrow> a > b | _ \<Rightarrow> False)"

fun fin_of :: "npfloat \<Rightarrow> real option" where
  "fin_of (Fin a) = Some a"
| "fin_of x = None"

text \<open>
  \<^verbatim>\<open>np.std\<close>: the population standard deviation, the square root of the mean of the
  squared deviations from the mean. One infinite or NaN entry makes the result NaN, and
  so does an empty array.
\<close>

definition mean :: "real list \<Rightarrow> real" where
  "mean rs = sum_list rs / real (length rs)"

definition np_std :: "npfloat list \<Rightarrow> npfloat" where
  "np_std xs =
     (if xs = [] then NaN
      else (case those (map fin_of xs) of
              None \<Rightarrow> NaN
            | Some rs \<Rightarrow> Fin (sqrt (mean (map (\<lambda>x. (x - mean rs)\<^sup>2) rs)))))"

section \<open>export_dashboard.py: recalculate_portfolio_from_csv\<close>

text \<open>
  The part of \<^verbatim>\<open>PortfolioManager\<close> (module \<^verbatim>\<open>stgeo_v1\<close>) that the function
  reads and assigns. A NaN price or cost of a trade is \<open>None\<close>.
\<close>

record trade =
  trade_timestamp :: int
  trade_stock :: string
  trade_shares :: int
  trade_price :: "real option"
  trade_total_cost :: "real option"

record pm_state =
  stocks :: "string list"
  portfolio :: "string \<rightharpoonup> int"
  cash :: real
  trades :: "trade list"

text \<open>
  \<^verbatim>\<open>df.sort_values('timestamp')\<close>, called with the default sort kind. pandas fixes that
  the result holds the same rows in ascending timestamp order; it promises the file order
  among rows of equal timestamp only for its stable sort kinds, which the source does not
  ask for. The sort is therefore a parameter \<open>sort_values\<close> of the functions that call
  it, and \<open>is_sort_values\<close> says what every admissible result satisfies.
\<close>

definition is_sort_values :: "log_row list \<Rightarrow> log_row list \<Rightarrow> bool" where
  "is_sort_values df sorted_df =
     (mset sorted_df = mset df \<and> sorted (map timestamp sorted_df))"

text \<open>
  Two admissible sorts: the stable one, and one that leaves the rows of equal timestamp
  in reverse file order.
\<close>

definition stable_sort_values :: "log_row list \<Rightarrow> log_row list" where
  "stable_sort_values df = sort_key timestamp df"

definition reversing_sort_values :: "log_row list \<Rightarrow> log_row list" where
  "reversing_sort_values df = sort_key timestamp (rev df)"

definition is_checkpoint :: "log_row \<Rightarrow> bool" where
  "is_checkpoint r = (position_after r \<noteq> None \<and> cash_after r \<noteq> None)"

text \<open>
  \<^verbatim>\<open>for _, row in latest_state.iterrows():
      if pd.notna(row['position_after']):
          new_portfolio[row['ticker']] = int(row['position_after'])\<close>
\<close>

fun build_new_portfolio :: "log_row list \<Rightarrow> (string \<rightharpoonup> int) \<Rightarrow> (string \<rightharpoonup> int)" where
  "build_new_portfolio [] np = np"
| "build_new_portfolio (r # rs) np =
     build_new_portfolio rs
       (case position_after r of None \<Rightarrow> np | Some p \<Rightarrow> np(ticker r \<mapsto> p))"

text \<open>
  \<^verbatim>\<open>for stock in pm.stocks:
      pm.portfolio[stock] = new_portfolio.get(stock, 0)\<close>
\<close>

fun set_positions :: "string list \<Rightarrow> (string \<rightharpoonup> int) \<Rightarrow> (string \<rightharpoonup> int) \<Rightarrow> (string \<rightharpoonup> int)" where
  "set_positions [] np pf = pf"
| "set_positions (s # ss) np pf =
     set_positions ss np (pf(s \<mapsto> (case np s of None \<Rightarrow> 0 | Some v \<Rightarrow> v)))"

text \<open>
  The loop over the BUY rows. \<^verbatim>\<open>int(row['quantity'])\<close> raises ValueError on NaN;
  \<^verbatim>\<open>float\<close> of NaN is NaN.
\<close>

fun build_trades :: "log_row list \<Rightarrow> py_error + trade list" where
  "build_trades [] = Inr []"
| "build_trades (r # rs) =
     (case quantity r of
        None \<Rightarrow> Inl ValueError
      | Some q \<Rightarrow>
          (case build_trades rs of
             Inl e \<Rightarrow> Inl e
           | Inr ts \<Rightarrow>
               Inr (\<lparr>trade_timestamp = timestamp r, trade_stock = ticker r, trade_shares = q,
                     trade_price = close r,
                     trade_total_cost = map_option (\<lambda>c. of_int q * c) (close r)\<rparr> # ts)))"

text \<open>
  The body of the \<^verbatim>\<open>try\<close> block, on the frame that \<^verbatim>\<open>read_csv\<close> returned.
  The function mutates \<^verbatim>\<open>pm\<close> in place, so the state at the moment an exception
  leaves the block is returned with the exception.
\<close>

definition recalculate_body ::
    "(log_row list \<Rightarrow> log_row list) \<Rightarrow> pm_state \<Rightarrow> log_row list \<Rightarrow> pm_state \<times> py_error option" where
  "recalculate_body sort_values pm df0 =
     (let df = sort_values df0;
          last_complete = filter is_checkpoint df
      in if last_complete = [] then (pm, None)
         else
           let latest_timestamp = Max (set (map timestamp last_complete));
               latest_state = filter (\<lambda>r. timestamp r = latest_timestamp) df;
               new_portfolio = build_new_portfolio latest_state Map.empty
           in (case iloc_last (dropna (map cash_after latest_state)) of
                 Inl e \<Rightarrow> (pm, Some e)
               | Inr latest_cash \<Rightarrow>
                   (let pm1 = pm\<lparr>portfolio := set_positions (stocks pm) new_portfolio (portfolio pm),
                                 cash := latest_cash\<rparr>
                    in (case build_trades (filter (\<lambda>r. action r = ''BUY'') df) of
                          Inl e \<Rightarrow> (pm1, Some e)
                        | Inr ts \<Rightarrow> (pm1\<lparr>trades := ts\<rparr>, None)))))"

text \<open>
  The whole function: \<^verbatim>\<open>except Exception\<close> catches whatever the body or
  \<^verbatim>\<open>read_csv\<close> raises and prints it, so the call always returns. The result is the
  manager's state after the call and the exception that was caught, if any.
\<close>

definition recalculate_portfolio_from_csv ::
    "(log_row list \<Rightarrow> log_row list) \<Rightarrow> pm_state \<Rightarrow> py_error + log_row list
      \<Rightarrow> pm_state \<times> py_error option" where
  "recalculate_portfolio_from_csv sort_values pm csv =
     (case csv of Inl e \<Rightarrow> (pm, Some e) | Inr df0 \<Rightarrow> recalculate_body sort_values pm df0)"

section \<open>The valuation series\<close>

text \<open>
  \<^verbatim>\<open>df['timestamp'].dt.floor('h')\<close> and \<^verbatim>\<open>floor('D')\<close>: the timestamp rounded down
  to a multiple of the bucket width, 3600 or 86400 seconds.
\<close>

definition floor_to :: "int \<Rightarrow> int \<Rightarrow> int" where
  "floor_to w t = (t div w) * w"

definition hour :: int where "hour = 3600"
definition day :: int where "day = 86400"

text \<open>\<^verbatim>\<open>Series.unique()\<close>: the distinct values in order of first appearance.\<close>

fun unique :: "'a list \<Rightarrow> 'a list" where
  "unique [] = []"
| "unique (x # xs) = x # unique (filter (\<lambda>y. y \<noteq> x) xs)"

text \<open>
  The valuation loop stands four times in the source with the same body: in
  \<^verbatim>\<open>generate_static_dashboard\<close> and \<^verbatim>\<open>calculate_performance_metrics\<close> of
  generate_static_dashboard.py (daily buckets) and in \<^verbatim>\<open>create_timeline_chart\<close> and
  \<^verbatim>\<open>calculate_performance_metrics\<close> of export_dashboard.py (hourly buckets).

  \<^verbatim>\<open>for stock in pm.stocks:
      stock_rows = timestamp_data[timestamp_data['ticker'] == stock]
      if not stock_rows.empty and not stock_rows['position_after'].isna().all():
          position = stock_rows['position_after'].dropna().iloc[-1]
          price = stock_rows['close'].dropna().iloc[-1]
          if not pd.isna(position) and not pd.isna(price):
              stock_value += position * price\<close>

  Both \<^verbatim>\<open>iloc[-1]\<close> are evaluated before the \<^verbatim>\<open>isna\<close> test, which is then
  always passed.
\<close>

definition isna_all :: "'a option list \<Rightarrow> bool" where
  "isna_all xs = list_all (\<lambda>x. x = None) xs"

fun stock_value_loop :: "log_row list \<Rightarrow> string list \<Rightarrow> real \<Rightarrow> py_error + real" where
  "stock_value_loop timestamp_data [] stock_value = Inr stock_value"
| "stock_value_loop timestamp_data (s # ss) stock_value =
     (let stock_rows = filter (\<lambda>r. ticker r = s) timestamp_data
      in if stock_rows \<noteq> [] \<and> \<not> isna_all (map position_after stock_rows) then
           (case iloc_last (dropna (map position_after stock_rows)) of
              Inl e \<Rightarrow> Inl e
            | Inr position \<Rightarrow>
                (case iloc_last (dropna (map close stock_rows)) of
                   Inl e \<Rightarrow> Inl e
                 | Inr price \<Rightarrow>
                     stock_value_loop timestamp_data ss (stock_value + of_int position * price)))
         else stock_value_loop timestamp_data ss stock_value)"

text \<open>One bucket: \<open>None\<close> when the bucket has no cash and appends nothing.\<close>

definition bucket_value :: "string list \<Rightarrow> log_row list \<Rightarrow> py_error + real option" where
  "bucket_value tracked timestamp_data =
     (if \<not> isna_all (map cash_after timestamp_data) then
        (case iloc_last (dropna (map cash_after timestamp_data)) of
           Inl e \<Rightarrow> Inl e
         | Inr latest_cash \<Rightarrow>
             (case stock_value_loop timestamp_data tracked 0 of
                Inl e \<Rightarrow> Inl e
              | Inr stock_value \<Rightarrow> Inr (Some (stock_value + latest_cash))))
      else Inr None)"

fun values_loop :: "int \<Rightarrow> string list \<Rightarrow> log_row list \<Rightarrow> int list \<Rightarrow> py_error + real list" where
  "values_loop w tracked df [] = Inr []"
| "values_loop w tracked df (b # bs) =
     (case bucket_value tracked (filter (\<lambda>r. floor_to w (timestamp r) = b) df) of
        Inl e \<Rightarrow> Inl e
      | Inr v \<Rightarrow>
          (case values_loop w tracked df bs of
             Inl e \<Rightarrow> Inl e
           | Inr vs \<Rightarrow> Inr (case v of None \<Rightarrow> vs | Some x \<Rightarrow> x # vs)))"

definition portfolio_values :: "int \<Rightarrow> string list \<Rightarrow> log_row list \<Rightarrow> py_error + real list" where
  "portfolio_values w tracked df =
     values_loop w tracked df (unique (map (\<lambda>r. floor_to w (timestamp r)) df))"

section \<open>The metrics\<close>

text \<open>\<^verbatim>\<open>returns = np.diff(portfolio_values) / portfolio_values[:-1]\<close>\<close>

definition np_diff :: "real list \<Rightarrow> real list" where
  "np_diff vs = map (\<lambda>(a, b). b - a) (zip vs (tl vs))"

definition period_returns :: "real list \<Rightarrow> npfloat list" where
  "period_returns vs = map (\<lambda>(d, p). np_div d p) (zip (np_diff vs) (butlast vs))"

text \<open>
  The win rate. The frame is in file order here: neither
  \<^verbatim>\<open>calculate_performance_metrics\<close> nor its callers sort it.
\<close>

definition future_prices :: "log_row list \<Rightarrow> log_row \<Rightarrow> real option list" where
  "future_prices df trade =
     map close (filter (\<lambda>r. ticker r = ticker trade \<and> timestamp r > timestamp trade) df)"

fun count_winning :: "log_row list \<Rightarrow> log_row list \<Rightarrow> nat \<Rightarrow> nat" where
  "count_winning df [] winning_trades = winning_trades"
| "count_winning df (trade # ts) winning_trades =
     (let fp = future_prices df trade
      in count_winning df ts
           (if fp \<noteq> [] \<and> cell_gt (last fp) (close trade)
            then winning_trades + 1 else winning_trades))"

definition win_rate_of :: "log_row list \<Rightarrow> real" where
  "win_rate_of df =
     (let buys = filter (\<lambda>r. action r = ''BUY'') df
      in if buys \<noteq> [] then (real (count_winning df buys 0) / real (length buys)) * 100
         else 0)"

text \<open>
  The maximum drawdown of generate_static_dashboard.py:
  \<^verbatim>\<open>peak = portfolio_values[0]
  max_dd = 0
  for value in portfolio_values:
      if value > peak:
          peak = value
      dd = ((peak - value) / peak) * 100
      if dd > max_dd:
          max_dd = dd\<close>
\<close>

fun max_dd_loop :: "real list \<Rightarrow> real \<Rightarrow> npfloat \<Rightarrow> npfloat" where
  "max_dd_loop [] peak max_dd = max_dd"
| "max_dd_loop (v # vs) peak max_dd =
     (let peak' = (if v > peak then v else peak);
          dd = np_times (np_div (peak' - v) peak') 100
      in max_dd_loop vs peak' (if np_gt dd max_dd then dd else max_dd))"

fun max_drawdown :: "real list \<Rightarrow> py_error + npfloat" where
  "max_drawdown [] = Inl IndexError"
| "max_drawdown (v # vs) = Inr (max_dd_loop (v # vs) v (Fin 0))"

text \<open>
  Best and worst stock. The source keeps a formatted string such as
  \<^verbatim>\<open>"AAPL (+3.2%)"\<close>; here it is the ticker with its return, and \<open>None\<close> is the
  initial \<^verbatim>\<open>"N/A"\<close>. The first and last price are the \<^verbatim>\<open>close\<close> cells of the
  ticker's first and last row in file order, NaN when the cell is null.
\<close>

definition stock_return :: "log_row list \<Rightarrow> npfloat" where
  "stock_return stock_data =
     (case (close (hd stock_data), close (last stock_data)) of
        (Some first_price, Some last_price) \<Rightarrow>
          np_times (np_div (last_price - first_price) first_price) 100
      | _ \<Rightarrow> NaN)"

record best_worst =
  best_stock :: "(string \<times> npfloat) option"
  worst_stock :: "(string \<times> npfloat) option"
  best_return :: npfloat
  worst_return :: npfloat

fun best_worst_loop :: "log_row list \<Rightarrow> string list \<Rightarrow> best_worst \<Rightarrow> best_worst" where
  "best_worst_loop df [] st = st"
| "best_worst_loop df (s # ss) st =
     (let stock_data = filter (\<lambda>r. ticker r = s) df
      in if stock_data \<noteq> [] \<and> length stock_data > 1 then
           (let ret = stock_return stock_data;
                st1 = (if np_gt ret (best_return st)
                       then st\<lparr>best_return := ret, best_stock := Some (s, ret)\<rparr> else st);
                st2 = (if np_lt ret (worst_return st1)
                       then st1\<lparr>worst_return := ret, worst_stock := Some (s, ret)\<rparr> else st1)
            in best_worst_loop df ss st2)
         else best_worst_loop df ss st)"

definition best_worst_stocks :: "log_row list \<Rightarrow> string list \<Rightarrow> best_worst" where
  "best_worst_stocks df tracked =
     best_worst_loop df tracked
       \<lparr>best_stock = None, worst_stock = None, best_return = NInf, worst_return = PInf\<rparr>"

text \<open>
  \<^verbatim>\<open>calculate_performance_metrics(df, pm)\<close> of generate_static_dashboard.py. The
  empty dictionary is \<open>None\<close>.
\<close>

record metrics =
  win_rate :: real
  volatility :: npfloat
  max_drawdown_pct :: npfloat
  best :: "(string \<times> npfloat) option"
  worst :: "(string \<times> npfloat) option"

definition static_metrics :: "log_row list \<Rightarrow> string list \<Rightarrow> py_error + metrics option" where
  "static_metrics df tracked =
     (if df = [] then Inr None
      else (case portfolio_values day tracked df of
              Inl e \<Rightarrow> Inl e
            | Inr pv \<Rightarrow>
                if length pv < 2 then Inr None
                else
                  (let returns = period_returns pv;
                       wr = win_rate_of df
                   in (case max_drawdown pv of
                         Inl e \<Rightarrow> Inl e
                       | Inr max_dd \<Rightarrow>
                           (let bw = best_worst_stocks df tracked
                            in Inr (Some
                                 \<lparr>win_rate = wr,
                                  volatility =
                                    (if length returns > 0
                                     then np_times (np_times (np_std returns) (sqrt 252)) 100
                                     else Fin 0),
                                  max_drawdown_pct = max_dd,
                                  best = best_stock bw,
                                  worst = worst_stock bw\<rparr>))))))"

text \<open>\<^verbatim>\<open>calculate_performance_metrics(pm, df)\<close> of export_dashboard.py.\<close>

record export_metrics =
  export_volatility :: npfloat
  export_win_rate :: real

definition export_metrics_of :: "log_row list \<Rightarrow> string list \<Rightarrow> py_error + export_metrics option" where
  "export_metrics_of df tracked =
     (if df = [] then Inr None
      else (case portfolio_values hour tracked df of
              Inl e \<Rightarrow> Inl e
            | Inr pv \<Rightarrow>
                if length pv < 2 then Inr None
                else
                  (let returns = period_returns pv
                   in Inr (Some
                        \<lparr>export_volatility = np_times (np_times (np_std returns) (sqrt 252)) 100,
                         export_win_rate = win_rate_of df\<rparr>))))"

section \<open>generate_dashboard.py: the portfolio value of the simple dashboard\<close>

text \<open>
  \<^verbatim>\<open>latest_data = df.sort_values('timestamp').groupby('ticker').last()\<close>

  \<^verbatim>\<open>GroupBy.last()\<close> takes, column by column, the last non-null cell of the group, NaN
  when the column has none in the group; it is not the group's last row. The groups come
  in the order of their keys, so \<^verbatim>\<open>latest_data.index\<close> is the sorted list of the
  distinct tickers. The sort by timestamp is the parameter \<open>sort_values\<close> again.
\<close>

fun last_valid :: "'a option list \<Rightarrow> 'a option \<Rightarrow> 'a option" where
  "last_valid [] found = found"
| "last_valid (x # xs) found = last_valid xs (case x of None \<Rightarrow> found | Some v \<Rightarrow> Some v)"

record latest_row =
  latest_close :: "real option"
  latest_position :: "int option"
  latest_cash :: "real option"

definition groupby_ticker_last ::
    "(log_row list \<Rightarrow> log_row list) \<Rightarrow> log_row list \<Rightarrow> (string \<times> latest_row) list" where
  "groupby_ticker_last sort_values df =
     (let sorted_df = sort_values df
      in map (\<lambda>k. let g = filter (\<lambda>r. ticker r = k) sorted_df
                   in (k, \<lparr>latest_close = last_valid (map close g) None,
                           latest_position = last_valid (map position_after g) None,
                           latest_cash = last_valid (map cash_after g) None\<rparr>))
           (sort (remdups (map ticker sorted_df))))"

text \<open>
  \<^verbatim>\<open>for ticker in latest_data.index:
      row = latest_data.loc[ticker]
      if pd.notna(row['position_after']) and pd.notna(row['cash_after']):
          value = row['position_after'] * row['close']
          total_value += value\<close>

  The product is NaN when the ticker has no price at all.
\<close>

fun holdings_loop :: "(string \<times> latest_row) list \<Rightarrow> npfloat \<Rightarrow> npfloat" where
  "holdings_loop [] total_value = total_value"
| "holdings_loop (kr # rest) total_value =
     (if latest_position (snd kr) \<noteq> None \<and> latest_cash (snd kr) \<noteq> None then
        holdings_loop rest
          (np_add total_value
             (case (latest_position (snd kr), latest_close (snd kr)) of
                (Some p, Some c) \<Rightarrow> Fin (of_int p * c)
              | _ \<Rightarrow> NaN))
      else holdings_loop rest total_value)"

text \<open>
  \<^verbatim>\<open>cash = latest_data['cash_after'].dropna().iloc[-1]
             if not latest_data['cash_after'].dropna().empty else 0\<close>
\<close>

definition dashboard_cash :: "(string \<times> latest_row) list \<Rightarrow> real" where
  "dashboard_cash latest_data =
     (let cs = dropna (map (\<lambda>kr. latest_cash (snd kr)) latest_data)
      in if cs \<noteq> [] then last cs else 0)"

definition dashboard_total_value :: "(log_row list \<Rightarrow> log_row list) \<Rightarrow> log_row list \<Rightarrow> npfloat" where
  "dashboard_total_value sort_values df =
     (let latest_data = groupby_ticker_last sort_values df
      in np_add (holdings_loop latest_data (Fin 0)) (Fin (dashboard_cash latest_data)))"

section \<open>The claims' own wording, and notions used to state the properties\<close>

text \<open>
  What claim C2 has a tracked ticker contribute to a bucket: its last non-null
  \<^verbatim>\<open>position_after\<close> times its last non-null \<^verbatim>\<open>close\<close> among its rows in the
  bucket when both exist, and 0 otherwise.
\<close>

definition ticker_contribution :: "log_row list \<Rightarrow> string \<Rightarrow> real" where
  "ticker_contribution timestamp_data s =
     (let stock_rows = filter (\<lambda>r. ticker r = s) timestamp_data;
          ps = dropna (map position_after stock_rows);
          cs = dropna (map close stock_rows)
      in if ps \<noteq> [] \<and> cs \<noteq> [] then of_int (last ps) * last cs else 0)"

text \<open>A ticker with a position but no price among its rows in the bucket.\<close>

definition unpriced :: "log_row list \<Rightarrow> string \<Rightarrow> bool" where
  "unpriced timestamp_data s =
     (let stock_rows = filter (\<lambda>r. ticker r = s) timestamp_data
      in dropna (map position_after stock_rows) \<noteq> [] \<and> dropna (map close stock_rows) = [])"

text \<open>
  The win rate in the words of the specification (section 4.3), to compare the source
  with: a BUY record wins when the chronologically last of the later rows of its ticker
  has a close above the record's close. Chronological order is the order of the
  timestamps, rows of one timestamp in file order.
\<close>

definition spec_winning :: "log_row list \<Rightarrow> log_row \<Rightarrow> bool" where
  "spec_winning df t =
     (let later = sort_key timestamp
                    (filter (\<lambda>r. ticker r = ticker t \<and> timestamp t < timestamp r) df)
      in later \<noteq> [] \<and> cell_gt (close (last later)) (close t))"

definition spec_win_rate :: "log_row list \<Rightarrow> real" where
  "spec_win_rate df =
     (let buys = filter (\<lambda>r. action r = ''BUY'') df
      in if buys = [] then 0
         else real (length (filter (spec_winning df) buys)) / real (length buys) * 100)"

text \<open>
  The maximum drawdown in the words of the specification (section 4.3), to compare the
  source with: the running peak \<open>P\<close> starts at the first valuation; each later point
  gives the drawdown \<open>(P - v) / P \<times> 100\<close> against the peak seen so far, after which
  \<open>P\<close> becomes \<open>max P v\<close>; the result is the greatest drawdown observed, 0 at least.
\<close>

fun spec_dd_loop :: "real list \<Rightarrow> real \<Rightarrow> npfloat \<Rightarrow> npfloat" where
  "spec_dd_loop [] P m = m"
| "spec_dd_loop (v # vs) P m =
     (let dd = np_times (np_div (P - v) P) 100
      in spec_dd_loop vs (max P v) (if np_gt dd m then dd else m))"

fun spec_max_drawdown :: "real list \<Rightarrow> npfloat" where
  "spec_max_drawdown [] = Fin 0"
| "spec_max_drawdown (v # vs) = spec_dd_loop vs v (Fin 0)"



text \<open>
  The running peak at point \<open>i\<close> of a series, the greatest valuation up to and including
  that point, and the drawdown there: \<open>(P - v) / P \<times> 100\<close> as numpy divides. The
  third notion is the same for a loop that starts with a peak carried over.
\<close>

definition running_peak :: "real list \<Rightarrow> nat \<Rightarrow> real" where
  "running_peak vs i = Max (set (take (Suc i) vs))"

definition drawdown_at :: "real list \<Rightarrow> nat \<Rightarrow> npfloat" where
  "drawdown_at vs i = np_times (np_div (running_peak vs i - vs ! i) (running_peak vs i)) 100"

definition drawdown_from :: "real \<Rightarrow> real list \<Rightarrow> nat \<Rightarrow> npfloat" where
  "drawdown_from peak vs i =
     np_times (np_div (max peak (running_peak vs i) - vs ! i) (max peak (running_peak vs i))) 100"

text \<open>The values the running maximum can take: a non-negative real or \<open>+inf\<close>.\<close>

definition dd_value :: "npfloat \<Rightarrow> bool" where
  "dd_value d = (d = PInf \<or> (\<exists>x. d = Fin x \<and> 0 \<le> x))"

text \<open>
  The tracked tickers that enter the comparison, in the order of \<^verbatim>\<open>pm.stocks\<close>, each
  with its return: those with more than one row in the log.
\<close>

definition candidates :: "log_row list \<Rightarrow> string list \<Rightarrow> (string \<times> npfloat) list" where
  "candidates df tracked =
     map (\<lambda>s. (s, stock_return (filter (\<lambda>r. ticker r = s) df)))
       (filter (\<lambda>s. 1 < length (filter (\<lambda>r. ticker r = s) df)) tracked)"

text \<open>
  One of the two running extremes of the loop, for a comparison \<open>gt\<close>: the current
  holder and its value, replaced when a candidate compares strictly beyond the value.
\<close>

fun pick :: "('r \<Rightarrow> 'r \<Rightarrow> bool) \<Rightarrow> ('s \<times> 'r) list \<Rightarrow> ('s \<times> 'r) option \<times> 'r \<Rightarrow> ('s \<times> 'r) option \<times> 'r" where
  "pick gt [] st = st"
| "pick gt (c # cs) st = (if gt (snd c) (snd st) then pick gt cs (Some c, snd c) else pick gt cs st)"

text \<open>
  The same value as claim C10 words it, to compare the source with: each ticker's own
  latest row (the last of its rows in the sorted frame) contributes
  \<open>position_after \<times> close\<close> when its \<^verbatim>\<open>position_after\<close> and \<^verbatim>\<open>cash_after\<close> are
  both non-null, and the cash is the last non-null \<^verbatim>\<open>cash_after\<close> of these rows in
  ticker order.
\<close>

definition own_latest_rows :: "(log_row list \<Rightarrow> log_row list) \<Rightarrow> log_row list \<Rightarrow> log_row list" where
  "own_latest_rows sort_values df =
     (let sorted_df = sort_values df
      in map (\<lambda>k. last (filter (\<lambda>r. ticker r = k) sorted_df))
           (sort (remdups (map ticker sorted_df))))"

definition claimed_total_value :: "(log_row list \<Rightarrow> log_row list) \<Rightarrow> log_row list \<Rightarrow> npfloat" where
  "claimed_total_value sort_values df =
     (let rows = own_latest_rows sort_values df;
          held = filter (\<lambda>r. position_after r \<noteq> None \<and> cash_after r \<noteq> None) rows;
          cs = dropna (map cash_after rows)
      in np_add
           (foldl np_add (Fin 0)
              (map (\<lambda>r. case (position_after r, close r) of
                           (Some p, Some c) \<Rightarrow> Fin (of_int p * c) | _ \<Rightarrow> NaN) held))
           (Fin (if cs \<noteq> [] then last cs else 0)))"

text \<open>
  The non-null cells of one column in the rows of one ticker, in the order of the sorted
  frame: ascending timestamps, rows of equal timestamp as the sort leaves them.
\<close>

definition ticker_column ::
    "(log_row list \<Rightarrow> log_row list) \<Rightarrow> (log_row \<Rightarrow> 'a option) \<Rightarrow> log_row list \<Rightarrow> string \<Rightarrow> 'a list" where
  "ticker_column sort_values col df k =
     dropna (map col (filter (\<lambda>r. ticker r = k) (sort_values df)))"

section \<open>Example logs\<close>

definition mk_row ::
    "int \<Rightarrow> string \<Rightarrow> string \<Rightarrow> int option \<Rightarrow> real option \<Rightarrow> int option \<Rightarrow> real option \<Rightarrow> log_row" where
  "mk_row t s a q c p k =
     \<lparr>timestamp = t, ticker = s, action = a, quantity = q, close = c,
      position_after = p, cash_after = k\<rparr>"

definition example_pm :: pm_state where
  "example_pm = \<lparr>stocks = [''AAPL'', ''MSFT''], portfolio = Map.empty, cash = 10000, trades = []\<rparr>"

definition checkpoint_log :: "log_row list" where
  "checkpoint_log =
     [mk_row 20 ''AAPL'' ''HOLD'' None (Some 150) (Some 10) (Some 5000),
      mk_row 10 ''AAPL'' ''BUY'' (Some 5) (Some 140) (Some 5) (Some 5700),
      mk_row 20 ''AAPL'' ''HOLD'' None (Some 151) (Some 12) None,
      mk_row 20 ''MSFT'' ''HOLD'' None (Some 300) None (Some 4900),
      mk_row 20 ''AAPL'' ''HOLD'' None (Some 152) None None]"

definition price_only_log :: "log_row list" where
  "price_only_log =
     [mk_row 10 ''AAPL'' ''BUY'' (Some 5) (Some 140) (Some 5) None,
      mk_row 11 ''MSFT'' ''HOLD'' None (Some 300) None (Some 9300)]"

definition null_close_log :: "log_row list" where
  "null_close_log =
     [mk_row 0 ''MSFT'' ''HOLD'' None (Some 300) None (Some 5000),
      mk_row 60 ''AAPL'' ''BUY'' (Some 10) None (Some 10) None]"



definition overdrawn_log :: "log_row list" where
  "overdrawn_log =
     [mk_row 0 ''AAPL'' ''HOLD'' None (Some 150) None (Some 100),
      mk_row 86400 ''AAPL'' ''HOLD'' None (Some 150) None (Some (- 50))]"

definition backfilled_log :: "log_row list" where
  "backfilled_log =
     [mk_row 0 ''AAPL'' ''BUY'' (Some 1) (Some 10) (Some 1) (Some 90),
      mk_row 172800 ''AAPL'' ''HOLD'' None (Some 20) (Some 1) (Some 90),
      mk_row 86400 ''AAPL'' ''HOLD'' None (Some 5) (Some 1) (Some 90)]"

definition two_buys_log :: "log_row list" where
  "two_buys_log =
     [mk_row 0 ''AAPL'' ''BUY'' (Some 10) (Some 5) (Some 10) (Some 50),
      mk_row 3600 ''MSFT'' ''BUY'' (Some 1) (Some 30) (Some 1) (Some 20),
      mk_row 86400 ''AAPL'' ''HOLD'' None (Some 7) (Some 10) (Some 20),
      mk_row 86400 ''MSFT'' ''HOLD'' None (Some 25) (Some 1) (Some 20)]"

definition zero_first_price_log :: "log_row list" where
  "zero_first_price_log =
     [mk_row 0 ''AAPL'' ''HOLD'' None (Some 0) None (Some 100),
      mk_row 86400 ''AAPL'' ''HOLD'' None (Some 5) None (Some 100)]"

definition null_first_close_log :: "log_row list" where
  "null_first_close_log =
     [mk_row 0 ''AAPL'' ''HOLD'' None None None (Some 100),
      mk_row 86400 ''AAPL'' ''HOLD'' None (Some 10) None (Some 100),
      mk_row 172800 ''AAPL'' ''HOLD'' None (Some 20) None (Some 100)]"

definition tie_log :: "log_row list" where
  "tie_log =
     [mk_row 0 ''AAPL'' ''HOLD'' None (Some 10) None (Some 100),
      mk_row 0 ''MSFT'' ''HOLD'' None (Some 20) None None,
      mk_row 0 ''GOOG'' ''HOLD'' None (Some 5) None None,
      mk_row 0 ''NVDA'' ''HOLD'' None (Some 1) None None,
      mk_row 86400 ''MSFT'' ''HOLD'' None (Some 22) None None,
      mk_row 86400 ''GOOG'' ''HOLD'' None (Some 4) None None,
      mk_row 86400 ''AAPL'' ''HOLD'' None (Some 11) None (Some 100)]"

definition stale_checkpoint_log :: "log_row list" where
  "stale_checkpoint_log =
     [mk_row 1 ''AAPL'' ''BUY'' (Some 10) (Some 5) (Some 10) (Some 100),
      mk_row 2 ''AAPL'' ''HOLD'' None (Some 6) None None]"

definition same_time_log :: "log_row list" where
  "same_time_log =
     [mk_row 5 ''AAPL'' ''BUY'' (Some 10) (Some 35) (Some 10) (Some 0),
      mk_row 5 ''AAPL'' ''BUY'' (Some 1) (Some 34) (Some 11) (Some 0)]"

definition two_ticker_log :: "log_row list" where
  "two_ticker_log =
     [mk_row 1 ''MSFT'' ''BUY'' (Some 2) (Some 100) (Some 2) (Some 500),
      mk_row 5 ''AAPL'' ''BUY'' (Some 10) (Some 5) (Some 10) (Some 300),
      mk_row 6 ''AAPL'' ''HOLD'' None (Some 6) None None]"

section \<open>Properties of the reconstruction\<close>

lemma set_dropna: "set (dropna xs) = {v. Some v \<in> set xs}"
  by (induction xs rule: dropna.induct) auto

lemma build_new_portfolio_lookup:
  "build_new_portfolio rs np s =
     (case dropna (map position_after (filter (\<lambda>r. ticker r = s) rs)) of
        [] \<Rightarrow> np s | p # ps \<Rightarrow> Some (last (p # ps)))"
proof (induction rs arbitrary: np)
  case Nil
  show ?case by simp
next
  case (Cons r rs)
  show ?case
    by (cases "position_after r") (auto simp: Cons.IH split: list.splits)
qed

lemma set_positions_lookup:
  "set_positions ss np pf s =
     (if s \<in> set ss then Some (case np s of None \<Rightarrow> 0 | Some v \<Rightarrow> v) else pf s)"
  by (induction ss arbitrary: pf) auto

text \<open>Both sorts are admissible, and the stable one keeps the rows of a timestamp in file order.\<close>

lemma stable_sort_values_admissible: "is_sort_values df (stable_sort_values df)"
  by (simp add: is_sort_values_def stable_sort_values_def)

lemma reversing_sort_values_admissible: "is_sort_values df (reversing_sort_values df)"
  by (simp add: is_sort_values_def reversing_sort_values_def)

lemma stable_sort_values_rows:
  "filter (\<lambda>r. timestamp r = T) (stable_sort_values df) = filter (\<lambda>r. timestamp r = T) df"
  unfolding stable_sort_values_def by (rule sort_key_stable)

text \<open>An admissible sort changes neither the rows nor, so, the checkpoint timestamps.\<close>

lemma is_sort_values_set: "is_sort_values df sorted_df \<Longrightarrow> set sorted_df = set df"
  by (auto simp: is_sort_values_def dest: mset_eq_setD)

lemma is_sort_values_filter:
  "is_sort_values df sorted_df \<Longrightarrow> mset (filter P sorted_df) = mset (filter P df)"
  by (simp add: is_sort_values_def mset_filter)

lemma checkpoint_timestamps_sorted:
  assumes "is_sort_values df sorted_df"
  shows "set (map timestamp (filter is_checkpoint sorted_df))
     = set (map timestamp (filter is_checkpoint df))"
  using is_sort_values_set[OF assms] by simp

text \<open>
  The rows at the latest checkpoint timestamp include a checkpoint row, so
  \<^verbatim>\<open>latest_state['cash_after'].dropna().iloc[-1]\<close> never raises.
\<close>

lemma cash_at_latest_checkpoint:
  assumes "set sorted_df = set df" and "filter is_checkpoint df \<noteq> []"
  shows "dropna (map cash_after
           (filter (\<lambda>r. timestamp r = Max (set (map timestamp (filter is_checkpoint df))))
              sorted_df)) \<noteq> []"
proof -
  let ?ts = "set (map timestamp (filter is_checkpoint df))"
  have "finite ?ts" "?ts \<noteq> {}" using assms(2) by (auto simp: filter_empty_conv)
  then have "Max ?ts \<in> ?ts" by (rule Max_in)
  then obtain r where r: "r \<in> set df" "is_checkpoint r" "timestamp r = Max ?ts" by auto
  then obtain c where "cash_after r = Some c" by (auto simp: is_checkpoint_def)
  with r assms(1)
  have "c \<in> set (dropna (map cash_after (filter (\<lambda>r. timestamp r = Max ?ts) sorted_df)))"
    by (force simp: set_dropna)
  then show ?thesis by auto
qed

lemma recalculate_body_checkpoint:
  assumes "is_sort_values df (sort_values df)" and "filter is_checkpoint df \<noteq> []"
  shows "let T = Max (set (map timestamp (filter is_checkpoint df)));
             at_T = filter (\<lambda>r. timestamp r = T) (sort_values df);
             pm' = fst (recalculate_body sort_values pm df)
         in portfolio pm' = set_positions (stocks pm) (build_new_portfolio at_T Map.empty) (portfolio pm)
            \<and> cash pm' = last (dropna (map cash_after at_T))"
proof -
  have sets: "set (sort_values df) = set df" by (rule is_sort_values_set[OF assms(1)])
  have ne: "filter is_checkpoint (sort_values df) \<noteq> []"
    using assms(2) sets by (auto simp: filter_empty_conv)
  have ts: "set (map timestamp (filter is_checkpoint (sort_values df)))
      = set (map timestamp (filter is_checkpoint df))"
    by (rule checkpoint_timestamps_sorted[OF assms(1)])
  show ?thesis
    using cash_at_latest_checkpoint[OF sets assms(2)] ne
    by (simp add: recalculate_body_def Let_def ts[simplified] iloc_last_def split: sum.splits)
qed

text \<open>
  C1, amended. When the log has a checkpoint row (both \<^verbatim>\<open>position_after\<close> and
  \<^verbatim>\<open>cash_after\<close> non-null), let \<open>T\<close> be the greatest timestamp of a checkpoint row
  and \<open>at_T\<close> the rows of the sorted frame with timestamp \<open>T\<close>; they are exactly the
  rows of the log with that timestamp. After the call, every tracked ticker holds the
  last non-null \<^verbatim>\<open>position_after\<close> among its rows in \<open>at_T\<close>, or 0 if it has none,
  and the cash is the last non-null \<^verbatim>\<open>cash_after\<close> in \<open>at_T\<close>, which exists; the
  entries of untracked tickers stay as they were. "Last"
  is in the order in which the sort leaves the rows of timestamp \<open>T\<close>: the file order
  when the sort is the stable one, which the source does not ask pandas for. All this
  holds also when the later loop over the BUY rows raises: the positions and the cash
  are assigned before it.
\<close>

theorem reconstruction_from_latest_checkpoint:
  assumes "is_sort_values df (sort_values df)" and "\<exists>r \<in> set df. is_checkpoint r"
  shows "let T = Max (set (map timestamp (filter is_checkpoint df)));
             at_T = filter (\<lambda>r. timestamp r = T) (sort_values df);
             pm' = fst (recalculate_portfolio_from_csv sort_values pm (Inr df))
         in mset at_T = mset (filter (\<lambda>r. timestamp r = T) df)
            \<and> (\<forall>s \<in> set (stocks pm).
                 portfolio pm' s =
                   Some (case dropna (map position_after (filter (\<lambda>r. ticker r = s) at_T)) of
                           [] \<Rightarrow> 0 | p # ps \<Rightarrow> last (p # ps)))
            \<and> (\<forall>s. s \<notin> set (stocks pm) \<longrightarrow> portfolio pm' s = portfolio pm s)
            \<and> dropna (map cash_after at_T) \<noteq> []
            \<and> cash pm' = last (dropna (map cash_after at_T))
            \<and> (sort_values df = stable_sort_values df \<longrightarrow>
                 at_T = filter (\<lambda>r. timestamp r = T) df)"
proof -
  have ne: "filter is_checkpoint df \<noteq> []"
    using assms(2) by (auto simp: filter_empty_conv)
  have sets: "set (sort_values df) = set df" by (rule is_sort_values_set[OF assms(1)])
  show ?thesis
    using recalculate_body_checkpoint[where sort_values = sort_values and df = df and pm = pm,
        OF assms(1) ne]
      cash_at_latest_checkpoint[OF sets ne]
      is_sort_values_filter[OF assms(1)] stable_sort_values_rows[of _ df]
    by (auto simp: recalculate_portfolio_from_csv_def Let_def set_positions_lookup
        build_new_portfolio_lookup split: list.splits)
qed

theorem reconstruction_from_latest_checkpoint_witness:
  "is_sort_values checkpoint_log (stable_sort_values checkpoint_log)
   \<and> (\<exists>r \<in> set checkpoint_log. is_checkpoint r)
   \<and> portfolio (fst (recalculate_portfolio_from_csv stable_sort_values example_pm (Inr checkpoint_log)))
        ''AAPL'' = Some 12
   \<and> portfolio (fst (recalculate_portfolio_from_csv stable_sort_values example_pm (Inr checkpoint_log)))
        ''MSFT'' = Some 0
   \<and> cash (fst (recalculate_portfolio_from_csv stable_sort_values example_pm (Inr checkpoint_log)))
        = 4900"
proof -
  have h: "\<exists>r \<in> set checkpoint_log. is_checkpoint r"
    by (simp add: checkpoint_log_def mk_row_def is_checkpoint_def)
  from reconstruction_from_latest_checkpoint[where sort_values = stable_sort_values
      and df = checkpoint_log and pm = example_pm, OF stable_sort_values_admissible h]
  show ?thesis
    using h stable_sort_values_admissible[of checkpoint_log]
    by (simp add: Let_def checkpoint_log_def mk_row_def is_checkpoint_def example_pm_def
        stable_sort_values_def)
qed

text \<open>
  C1, as stated, fails under a sort that is as admissible as the stable one: with the
  rows of equal timestamp left in reverse file order, AAPL gets 10 shares and the cash is
  5000, where the last rows in file order carry 12 shares and 4900.
\<close>

theorem insertion_order_counterexample:
  "is_sort_values checkpoint_log (reversing_sort_values checkpoint_log)
   \<and> portfolio (fst (recalculate_portfolio_from_csv reversing_sort_values example_pm (Inr checkpoint_log)))
        ''AAPL'' = Some 10
   \<and> cash (fst (recalculate_portfolio_from_csv reversing_sort_values example_pm (Inr checkpoint_log)))
        = 5000
   \<and> last (dropna (map position_after
              (filter (\<lambda>r. ticker r = ''AAPL'') (filter (\<lambda>r. timestamp r = 20) checkpoint_log)))) = 12
   \<and> last (dropna (map cash_after (filter (\<lambda>r. timestamp r = 20) checkpoint_log))) = 4900"
proof -
  have "recalculate_portfolio_from_csv reversing_sort_values example_pm (Inr checkpoint_log)
      = recalculate_body reversing_sort_values example_pm checkpoint_log"
    by (simp add: recalculate_portfolio_from_csv_def)
  then show ?thesis
    using reversing_sort_values_admissible[of checkpoint_log]
    by (simp add: recalculate_body_def Let_def checkpoint_log_def mk_row_def is_checkpoint_def
        example_pm_def reversing_sort_values_def iloc_last_def)
qed

text \<open>
  C9. When no row of the log has both \<^verbatim>\<open>position_after\<close> and \<^verbatim>\<open>cash_after\<close>
  non-null, the call returns with the manager's state exactly as the caller supplied it
  (positions, cash and trades untouched), and no exception was raised inside it,
  whatever order the sort leaves the rows in.
\<close>

theorem no_checkpoint_keeps_state:
  assumes "is_sort_values df (sort_values df)" and "\<not> (\<exists>r \<in> set df. is_checkpoint r)"
  shows "recalculate_portfolio_from_csv sort_values pm (Inr df) = (pm, None)"
  using assms(2) is_sort_values_set[OF assms(1)]
  by (auto simp: recalculate_portfolio_from_csv_def recalculate_body_def Let_def filter_empty_conv)

theorem no_checkpoint_keeps_state_witness:
  "is_sort_values price_only_log (stable_sort_values price_only_log)
   \<and> is_sort_values price_only_log (reversing_sort_values price_only_log)
   \<and> \<not> (\<exists>r \<in> set price_only_log. is_checkpoint r)
   \<and> recalculate_portfolio_from_csv stable_sort_values example_pm (Inr price_only_log) = (example_pm, None)
   \<and> recalculate_portfolio_from_csv reversing_sort_values example_pm (Inr price_only_log) = (example_pm, None)"
proof -
  have h: "\<not> (\<exists>r \<in> set price_only_log. is_checkpoint r)"
    by (simp add: price_only_log_def mk_row_def is_checkpoint_def)
  from no_checkpoint_keeps_state[where sort_values = stable_sort_values
      and df = price_only_log and pm = example_pm, OF stable_sort_values_admissible h]
    no_checkpoint_keeps_state[where sort_values = reversing_sort_values
      and df = price_only_log and pm = example_pm, OF reversing_sort_values_admissible h]
  show ?thesis
    using h stable_sort_values_admissible[of price_only_log]
      reversing_sort_values_admissible[of price_only_log]
    by simp
qed

section \<open>Properties of the valuation series\<close>

lemma isna_all_dropna: "isna_all xs \<longleftrightarrow> dropna xs = []"
  by (induction xs rule: dropna.induct) (simp_all add: isna_all_def)

text \<open>
  What the valuation loop computes: a bucket without cash gives no point; a bucket with a
  tracked ticker that has a position but no price raises; every other bucket is worth its
  last cash plus the contributions of the tracked tickers.
\<close>

lemma stock_value_loop_cases:
  "stock_value_loop td ss acc =
     (if list_ex (unpriced td) ss then Inl IndexError
      else Inr (acc + sum_list (map (ticker_contribution td) ss)))"
proof (induction ss arbitrary: acc)
  case Nil
  show ?case by simp
next
  case (Cons s ss)
  show ?case
  proof (cases "dropna (map position_after (filter (\<lambda>r. ticker r = s) td)) = []")
    case True
    then have "\<not> unpriced td s" "ticker_contribution td s = 0"
      by (simp_all add: unpriced_def ticker_contribution_def Let_def)
    then show ?thesis
      using True by (simp add: Let_def isna_all_dropna Cons.IH)
  next
    case False
    then have rows: "filter (\<lambda>r. ticker r = s) td \<noteq> []" by auto
    show ?thesis
    proof (cases "dropna (map close (filter (\<lambda>r. ticker r = s) td)) = []")
      case True
      then have "unpriced td s" using False by (simp add: unpriced_def Let_def)
      then show ?thesis
        using True False rows by (simp add: Let_def isna_all_dropna iloc_last_def)
    next
      case priced: False
      then have "\<not> unpriced td s"
        "ticker_contribution td s =
           of_int (last (dropna (map position_after (filter (\<lambda>r. ticker r = s) td))))
           * last (dropna (map close (filter (\<lambda>r. ticker r = s) td)))"
        using False by (simp_all add: unpriced_def ticker_contribution_def Let_def)
      then show ?thesis
        using priced False rows
        by (simp add: Let_def isna_all_dropna iloc_last_def Cons.IH add.assoc)
    qed
  qed
qed

lemma bucket_value_cases:
  "bucket_value tracked td =
     (if dropna (map cash_after td) = [] then Inr None
      else if list_ex (unpriced td) tracked then Inl IndexError
      else Inr (Some (sum_list (map (ticker_contribution td) tracked)
                      + last (dropna (map cash_after td)))))"
  by (simp add: bucket_value_def isna_all_dropna iloc_last_def stock_value_loop_cases)

text \<open>
  C2. A tracked ticker whose rows in a bucket carry a position but no price: the claim
  has it contribute 0, so that the bucket below would be worth its cash. The source evaluates
  \<^verbatim>\<open>stock_rows['close'].dropna().iloc[-1]\<close> on the empty series before it tests
  \<^verbatim>\<open>pd.isna(price)\<close>, so the valuation loop, and with it both
  \<^verbatim>\<open>calculate_performance_metrics\<close>, raise IndexError on such a log.
\<close>

theorem null_close_raises:
  "ticker_contribution null_close_log ''AAPL'' = 0
   \<and> bucket_value [''AAPL''] null_close_log = Inl IndexError
   \<and> portfolio_values day [''AAPL''] null_close_log = Inl IndexError
   \<and> portfolio_values hour [''AAPL''] null_close_log = Inl IndexError
   \<and> static_metrics null_close_log [''AAPL''] = Inl IndexError
   \<and> export_metrics_of null_close_log [''AAPL''] = Inl IndexError"
  by (simp add: static_metrics_def export_metrics_of_def portfolio_values_def null_close_log_def
      mk_row_def floor_to_def day_def hour_def bucket_value_def isna_all_def iloc_last_def Let_def
      ticker_contribution_def)

section \<open>Properties of the period returns\<close>

lemma period_returns_Cons2:
  "period_returns (a # b # vs) = np_div (b - a) a # period_returns (b # vs)"
  by (simp add: period_returns_def np_diff_def)

lemma period_returns_single: "period_returns [a] = []"
  by (simp add: period_returns_def np_diff_def)

lemma length_period_returns: "length (period_returns vs) = length vs - 1"
  by (simp add: period_returns_def np_diff_def)

lemma period_returns_nth:
  "Suc i < length vs \<Longrightarrow> period_returns vs ! i = np_div (vs ! Suc i - vs ! i) (vs ! i)"
  by (simp add: period_returns_def np_diff_def nth_butlast nth_tl)

text \<open>
  C3, as stated, fails: after a valuation of 0 the step is not 0. The series
  \<open>[0, 100]\<close> has the single return \<open>+inf\<close>.
\<close>

theorem zero_prior_value_counterexample:
  "period_returns [0, 100] = [PInf] \<and> period_returns [0, 100] ! 0 \<noteq> Fin 0"
  by (simp add: period_returns_Cons2 period_returns_single np_div_def)

text \<open>
  C3, amended. A series of \<open>n\<close> valuations has \<open>n - 1\<close> returns and computing them
  raises nothing. The return at step \<open>i\<close> is \<open>(v\<^sub>i\<^sub>+\<^sub>1 - v\<^sub>i) / v\<^sub>i\<close> when \<open>v\<^sub>i\<close> is not
  zero. When \<open>v\<^sub>i\<close> is zero the division is not guarded: the return is \<open>+inf\<close>, \<open>-inf\<close>
  or NaN as \<open>v\<^sub>i\<^sub>+\<^sub>1\<close> is positive, negative or zero.
\<close>

theorem period_returns_steps:
  "length (period_returns vs) = length vs - 1
   \<and> (\<forall>i. Suc i < length vs \<longrightarrow>
         period_returns vs ! i =
           (if vs ! i \<noteq> 0 then Fin ((vs ! Suc i - vs ! i) / vs ! i)
            else if vs ! Suc i > 0 then PInf
            else if vs ! Suc i < 0 then NInf
            else NaN))"
  by (simp add: length_period_returns period_returns_nth np_div_def)

theorem period_returns_steps_witness:
  "period_returns [100, 120, 0, 5] ! 0 = Fin (1 / 5)
   \<and> period_returns [100, 120, 0, 5] ! 1 = Fin (- 1)
   \<and> period_returns [100, 120, 0, 5] ! 2 = PInf
   \<and> length (period_returns [100, 120, 0, 5]) = 3"
  using period_returns_steps[of "[100, 120, 0, 5]"]
  by (simp add: nth_Cons' all_conj_distrib)

text \<open>
  C8. The series \<open>[100, 120, 90, 150]\<close> has the returns \<open>0.20\<close>, \<open>-0.25\<close> and
  \<open>2/3\<close>, which is \<open>0.667\<close> to three decimals, and the maximum drawdown
  \<open>(120 - 90) / 120 \<times> 100 = 25\<close>.
\<close>

theorem example_series_returns_and_drawdown:
  "period_returns [100, 120, 90, 150] = [Fin (20 / 100), Fin (- (25 / 100)), Fin (2 / 3)]
   \<and> round ((2 / 3 :: real) * 1000) = 667
   \<and> max_drawdown [100, 120, 90, 150] = Inr (Fin ((120 - 90) / 120 * 100))
   \<and> ((120 - 90) / 120 * 100 :: real) = 25"
  by (simp add: period_returns_Cons2 period_returns_single np_div_def Let_def round_def floor_eq_iff)

section \<open>Properties of the metrics\<close>

lemma portfolio_values_empty_log: "portfolio_values w tracked [] = Inr []"
  by (simp add: portfolio_values_def)

lemma max_drawdown_returns: "vs \<noteq> [] \<Longrightarrow> max_drawdown vs = Inr (max_dd_loop vs (hd vs) (Fin 0))"
  by (cases vs) simp_all

text \<open>With two valuations or more both functions return a snapshot.\<close>

lemma static_metrics_snapshot:
  assumes "portfolio_values day tracked df = Inr pv" and "2 \<le> length pv"
  shows "static_metrics df tracked =
           Inr (Some \<lparr>win_rate = win_rate_of df,
                      volatility = np_times (np_times (np_std (period_returns pv)) (sqrt 252)) 100,
                      max_drawdown_pct = max_dd_loop pv (hd pv) (Fin 0),
                      best = best_stock (best_worst_stocks df tracked),
                      worst = worst_stock (best_worst_stocks df tracked)\<rparr>)"
proof -
  have "df \<noteq> []" using assms by (auto simp: portfolio_values_empty_log)
  moreover have "pv \<noteq> []" using assms by auto
  moreover have "period_returns pv \<noteq> []"
    using assms(2) length_period_returns[of pv] by (cases "period_returns pv") simp_all
  ultimately show ?thesis
    using assms by (simp add: static_metrics_def Let_def max_drawdown_returns length_period_returns)
qed

lemma export_metrics_snapshot:
  assumes "portfolio_values hour tracked df = Inr pv" and "2 \<le> length pv"
  shows "export_metrics_of df tracked =
           Inr (Some \<lparr>export_volatility = np_times (np_times (np_std (period_returns pv)) (sqrt 252)) 100,
                      export_win_rate = win_rate_of df\<rparr>)"
proof -
  have "df \<noteq> []" using assms by (auto simp: portfolio_values_empty_log)
  then show ?thesis
    using assms by (simp add: export_metrics_of_def Let_def)
qed
















section \<open>Properties of the maximum drawdown\<close>

lemma np_gt_irrefl: "\<not> np_gt a a"
  by (cases a) simp_all

lemma np_gt_asym: "np_gt a b \<Longrightarrow> \<not> np_gt b a"
  by (cases a; cases b) simp_all

lemma np_gt_not_nan: "np_gt a b \<Longrightarrow> a \<noteq> NaN"
  by (cases a) simp_all

lemma np_not_gt_trans: "\<not> np_gt a b \<Longrightarrow> \<not> np_gt b c \<Longrightarrow> b \<noteq> NaN \<Longrightarrow> \<not> np_gt a c"
  by (cases a; cases b; cases c) simp_all

lemma drawdown_from_0: "drawdown_from peak (w # ws) 0 = np_times (np_div (max peak w - w) (max peak w)) 100"
  by (simp add: drawdown_from_def running_peak_def)

lemma running_peak_Suc:
  "j < length ws \<Longrightarrow> running_peak (w # ws) (Suc j) = max w (running_peak ws j)"
proof -
  assume "j < length ws"
  then have "set (take (Suc j) ws) \<noteq> {}" by (cases ws) auto
  then show ?thesis by (simp add: running_peak_def)
qed

lemma drawdown_from_Suc:
  "j < length ws \<Longrightarrow> drawdown_from peak (w # ws) (Suc j) = drawdown_from (max peak w) ws j"
  by (simp add: drawdown_from_def running_peak_Suc max.assoc)

lemma max_dd_loop_greatest:
  assumes "m \<noteq> NaN"
  shows "max_dd_loop ws peak m \<noteq> NaN
     \<and> (max_dd_loop ws peak m = m \<or> (\<exists>j<length ws. max_dd_loop ws peak m = drawdown_from peak ws j))
     \<and> \<not> np_gt m (max_dd_loop ws peak m)
     \<and> (\<forall>j<length ws. \<not> np_gt (drawdown_from peak ws j) (max_dd_loop ws peak m))"
  using assms
proof (induction ws arbitrary: peak m)
  case Nil
  then show ?case by (simp add: np_gt_irrefl)
next
  case (Cons w ws)
  define peak' where "peak' = max peak w"
  define d0 where "d0 = np_times (np_div (peak' - w) peak') 100"
  define m' where "m' = (if np_gt d0 m then d0 else m)"
  define r where "r = max_dd_loop ws peak' m'"
  have pk: "(if w > peak then w else peak) = peak'"
    by (auto simp: peak'_def max_def)
  have step: "max_dd_loop (w # ws) peak m = r"
    unfolding r_def m'_def d0_def by (simp only: max_dd_loop.simps Let_def pk)
  have d0: "drawdown_from peak (w # ws) 0 = d0"
    by (simp add: drawdown_from_0 d0_def peak'_def)
  have m'_nan: "m' \<noteq> NaN"
    using Cons.prems np_gt_not_nan[of d0 m] by (auto simp: m'_def)
  note IH = Cons.IH[OF m'_nan, of peak', folded r_def]
  have m_m': "\<not> np_gt m m'"
    using np_gt_asym[of d0 m] np_gt_irrefl[of m] by (simp add: m'_def)
  have d0_m': "\<not> np_gt d0 m'"
    using np_gt_irrefl[of d0] by (simp add: m'_def)
  show ?case
    unfolding step
  proof (intro conjI)
    show "r \<noteq> NaN" using IH by blast
    show "r = m \<or> (\<exists>j<length (w # ws). r = drawdown_from peak (w # ws) j)"
    proof -
      from IH have "r = m' \<or> (\<exists>j<length ws. r = drawdown_from peak' ws j)" by blast
      then show ?thesis
      proof
        assume "r = m'"
        then have "r = m \<or> r = drawdown_from peak (w # ws) 0" by (auto simp: m'_def d0)
        then show ?thesis by auto
      next
        assume "\<exists>j<length ws. r = drawdown_from peak' ws j"
        then obtain j where "j < length ws" "r = drawdown_from peak (w # ws) (Suc j)"
          by (auto simp: drawdown_from_Suc peak'_def)
        then show ?thesis by auto
      qed
    qed
    show "\<not> np_gt m r"
      using np_not_gt_trans[OF m_m' _ m'_nan] IH by blast
    show "\<forall>j<length (w # ws). \<not> np_gt (drawdown_from peak (w # ws) j) r"
    proof (intro allI impI)
      fix j assume j: "j < length (w # ws)"
      show "\<not> np_gt (drawdown_from peak (w # ws) j) r"
      proof (cases j)
        case 0
        then show ?thesis
          using np_not_gt_trans[OF d0_m' _ m'_nan] IH d0 by auto
      next
        case (Suc j')
        then show ?thesis
          using j IH by (auto simp: drawdown_from_Suc peak'_def)
      qed
    qed
  qed
qed

lemma drawdown_from_first:
  assumes "i < length (v # vs)"
  shows "drawdown_from v (v # vs) i = drawdown_at (v # vs) i"
proof -
  have "v \<le> running_peak (v # vs) i"
    unfolding running_peak_def by (rule Max_ge) simp_all
  then have "max v (running_peak (v # vs) i) = running_peak (v # vs) i" by simp
  then show ?thesis by (simp add: drawdown_from_def drawdown_at_def)
qed

lemma max_drawdown_greatest:
  assumes "vs \<noteq> []"
  shows "\<exists>d. max_drawdown vs = Inr d \<and> d \<noteq> NaN
           \<and> (d = Fin 0 \<or> (\<exists>i<length vs. d = drawdown_at vs i))
           \<and> \<not> np_gt (Fin 0) d
           \<and> (\<forall>i<length vs. \<not> np_gt (drawdown_at vs i) d)"
proof -
  obtain v ws where vs: "vs = v # ws" using assms by (cases vs) auto
  have "Fin 0 \<noteq> NaN" by simp
  from max_dd_loop_greatest[OF this, of "v # ws" v]
  show ?thesis
    unfolding vs max_drawdown.simps
    by (metis drawdown_from_first)
qed

lemma np_gt_dd_value: "dd_value m \<Longrightarrow> np_gt dd m \<Longrightarrow> dd_value dd"
  by (cases dd; cases m) (auto simp: dd_value_def)

lemma max_dd_loop_dd_value: "dd_value m \<Longrightarrow> dd_value (max_dd_loop vs peak m)"
proof (induction vs arbitrary: peak m)
  case Nil
  then show ?case by simp
next
  case (Cons v vs)
  have "dd_value (if np_gt dd m then dd else m)" for dd
    using Cons.prems np_gt_dd_value[of m dd] by simp
  then show ?case
    by (simp add: Let_def Cons.IH del: if_split cong: if_cong)
qed

lemma max_dd_loop_nondecreasing:
  "sorted vs \<Longrightarrow> \<forall>v \<in> set vs. peak \<le> v \<Longrightarrow> max_dd_loop vs peak (Fin 0) = Fin 0"
proof (induction vs arbitrary: peak)
  case Nil
  show ?case by simp
next
  case (Cons v vs)
  have pv: "(if v > peak then v else peak) = v" using Cons.prems(2) by auto
  have dd: "\<not> np_gt (np_times (np_div (v - v) v) 100) (Fin 0)"
    by (simp add: np_div_def)
  have "max_dd_loop vs v (Fin 0) = Fin 0"
    using Cons.prems(1) by (intro Cons.IH) auto
  then show ?case
    using dd by (simp add: Let_def pv)
qed

lemma max_dd_loop_nonneg:
  assumes "\<forall>v \<in> set vs. 0 \<le> v" and "0 \<le> peak" and "0 \<le> x" and "x \<le> 100"
  shows "\<exists>y. max_dd_loop vs peak (Fin x) = Fin y \<and> 0 \<le> y \<and> y \<le> 100
             \<and> spec_dd_loop vs peak (Fin x) = Fin y"
  using assms
proof (induction vs arbitrary: peak x)
  case Nil
  then show ?case by simp
next
  case (Cons v vs)
  have v: "0 \<le> v" and rest: "\<forall>v \<in> set vs. 0 \<le> v" using Cons.prems(1) by auto
  show ?case
  proof (cases "v > peak")
    case True
    then have vpos: "0 < v" using Cons.prems(2) by linarith
    have code: "max_dd_loop (v # vs) peak (Fin x) = max_dd_loop vs v (Fin x)"
      using True vpos Cons.prems(3) by (simp add: Let_def np_div_def)
    have "\<not> np_gt (np_times (np_div (peak - v) peak) 100) (Fin x)"
    proof (cases "peak = 0")
      case True
      then show ?thesis using vpos by (simp add: np_div_def)
    next
      case False
      then have "0 < peak" using Cons.prems(2) by linarith
      then have "(peak - v) / peak * 100 \<le> 0"
        using \<open>v > peak\<close> by (simp add: divide_le_0_iff mult_le_0_iff)
      then show ?thesis using False Cons.prems(3) by (simp add: np_div_def)
    qed
    then have spec: "spec_dd_loop (v # vs) peak (Fin x) = spec_dd_loop vs v (Fin x)"
      using True by (simp add: Let_def max_def)
    show ?thesis
      unfolding code spec
      using Cons.IH[OF rest v Cons.prems(3) Cons.prems(4)] .
  next
    case False
    then have le: "v \<le> peak" by simp
    have pk: "(if v > peak then v else peak) = peak" "max peak v = peak" using le by auto
    show ?thesis
    proof (cases "peak = 0")
      case True
      then have "v = 0" using le v by linarith
      then have code: "max_dd_loop (v # vs) peak (Fin x) = max_dd_loop vs peak (Fin x)"
        and spec: "spec_dd_loop (v # vs) peak (Fin x) = spec_dd_loop vs peak (Fin x)"
        using True by (simp_all add: Let_def np_div_def)
      show ?thesis
        unfolding code spec
        using Cons.IH[OF rest Cons.prems(2) Cons.prems(3) Cons.prems(4)] .
    next
      case False
      then have ppos: "0 < peak" using Cons.prems(2) by linarith
      define d where "d = (peak - v) / peak * 100"
      have d0: "0 \<le> d" using ppos le by (simp add: d_def)
      have d100: "d \<le> 100" using ppos v by (simp add: d_def field_simps)
      have dd: "np_times (np_div (peak - v) peak) 100 = Fin d"
        using False by (simp add: np_div_def d_def)
      have code: "max_dd_loop (v # vs) peak (Fin x) = max_dd_loop vs peak (Fin (if d > x then d else x))"
        and spec: "spec_dd_loop (v # vs) peak (Fin x) = spec_dd_loop vs peak (Fin (if d > x then d else x))"
        using pk dd by (simp_all add: Let_def)
      have "0 \<le> (if d > x then d else x)" "(if d > x then d else x) \<le> 100"
        using d0 d100 Cons.prems(3,4) by auto
      then show ?thesis
        unfolding code spec
        using Cons.IH[OF rest Cons.prems(2)] by blast
    qed
  qed
qed

lemma max_drawdown_nonneg_series:
  assumes "vs \<noteq> []" and "\<forall>v \<in> set vs. 0 \<le> v"
  shows "\<exists>y. max_drawdown vs = Inr (Fin y) \<and> 0 \<le> y \<and> y \<le> 100 \<and> spec_max_drawdown vs = Fin y"
proof -
  obtain v ws where vs: "vs = v # ws" using assms(1) by (cases vs) auto
  then have v: "0 \<le> v" and rest: "\<forall>v \<in> set ws. 0 \<le> v" using assms(2) by auto
  have first: "max_dd_loop (v # ws) v (Fin 0) = max_dd_loop ws v (Fin 0)"
    by (simp add: Let_def np_div_def)
  show ?thesis
    using max_dd_loop_nonneg[OF rest v, of 0] by (simp add: vs first del: max_dd_loop.simps)
qed

text \<open>
  C5, amended. For a series with at least one point (so for every series with two or
  more), the drawdown at a point is \<open>(P - v) / P \<times> 100\<close> for the valuation \<open>v\<close>
  there and the running peak \<open>P\<close>, the greatest valuation up to and including that
  point (the source raises the peak before it divides); at a zero peak it is infinite or
  NaN. The result is the greatest of 0 and these drawdowns, NaN set aside: it is 0 or
  one of them, it is not NaN, and neither 0 nor any of them exceeds it. The result is
  never negative, and it is 0 for every non-decreasing series. When no valuation is
  negative, the result lies in \<open>[0, 100]\<close> and is what the specification's order gives
  (the drawdown against the peak before the update).
\<close>

theorem max_drawdown_running_peak:
  "vs \<noteq> [] \<longrightarrow>
     (\<exists>d. max_drawdown vs = Inr d \<and> d \<noteq> NaN
          \<and> (d = Fin 0 \<or> (\<exists>i<length vs. d = drawdown_at vs i))
          \<and> \<not> np_gt (Fin 0) d
          \<and> (\<forall>i<length vs. \<not> np_gt (drawdown_at vs i) d)
          \<and> (d = PInf \<or> (\<exists>x. d = Fin x \<and> 0 \<le> x)))
     \<and> (sorted vs \<longrightarrow> max_drawdown vs = Inr (Fin 0))
     \<and> ((\<forall>v \<in> set vs. 0 \<le> v) \<longrightarrow>
          (\<exists>y. max_drawdown vs = Inr (Fin y) \<and> 0 \<le> y \<and> y \<le> 100 \<and> spec_max_drawdown vs = Fin y))"
proof (intro impI conjI)
  assume ne: "vs \<noteq> []"
  then obtain v ws where vs: "vs = v # ws" by (cases vs) auto
  have "dd_value (max_dd_loop vs v (Fin 0))"
    by (rule max_dd_loop_dd_value) (simp add: dd_value_def)
  then have "\<forall>d. max_drawdown vs = Inr d \<longrightarrow> d = PInf \<or> (\<exists>x. d = Fin x \<and> 0 \<le> x)"
    by (simp add: vs dd_value_def del: max_dd_loop.simps)
  with max_drawdown_greatest[OF ne]
  show "\<exists>d. max_drawdown vs = Inr d \<and> d \<noteq> NaN
          \<and> (d = Fin 0 \<or> (\<exists>i<length vs. d = drawdown_at vs i))
          \<and> \<not> np_gt (Fin 0) d
          \<and> (\<forall>i<length vs. \<not> np_gt (drawdown_at vs i) d)
          \<and> (d = PInf \<or> (\<exists>x. d = Fin x \<and> 0 \<le> x))"
    by blast
  show "max_drawdown vs = Inr (Fin 0)" if "sorted vs"
    using that max_dd_loop_nondecreasing[of vs v] by (auto simp: vs simp del: max_dd_loop.simps)
  show "\<exists>y. max_drawdown vs = Inr (Fin y) \<and> 0 \<le> y \<and> y \<le> 100 \<and> spec_max_drawdown vs = Fin y"
    if "\<forall>v \<in> set vs. 0 \<le> v"
    using max_drawdown_nonneg_series[OF ne that] .
qed

theorem max_drawdown_running_peak_witness:
  "max_drawdown [100, 120, 90, 150] = Inr (Fin 25)
   \<and> drawdown_at [100, 120, 90, 150] 2 = Fin 25
   \<and> spec_max_drawdown [100, 120, 90, 150] = Fin 25
   \<and> max_drawdown [100, 100, 120] = Inr (Fin 0)
   \<and> max_drawdown [- 100, - 150] = Inr (Fin 0)
   \<and> drawdown_at [- 100, - 150] 1 = Fin (- 50)
   \<and> max_drawdown [0, - 5] = Inr PInf
   \<and> drawdown_at [0, - 5] 1 = PInf"
  using max_drawdown_running_peak[of "[100, 120, 90, 150]"] max_drawdown_running_peak[of "[100, 100, 120]"]
    max_drawdown_running_peak[of "[- 100, - 150]"] max_drawdown_running_peak[of "[0, - 5]"]
  by (simp add: Let_def np_div_def drawdown_at_def running_peak_def)

lemma overdrawn_log_daily: "portfolio_values day [''AAPL''] overdrawn_log = Inr [100, - 50]"
  by (simp add: portfolio_values_def overdrawn_log_def mk_row_def floor_to_def day_def
      bucket_value_def isna_all_def iloc_last_def Let_def)

text \<open>
  C5, as stated, fails on a series with a negative valuation: a log whose cash goes from
  100 to -50 has the drawdown 150, outside \<open>[0, 100]\<close>; and on \<open>[-100, -50]\<close>
  the drawdown against the peak before the update is 50 where the source gives 0.
\<close>

theorem max_drawdown_range_counterexample:
  "portfolio_values day [''AAPL''] overdrawn_log = Inr [100, - 50]
   \<and> map_sum id (map_option max_drawdown_pct) (static_metrics overdrawn_log [''AAPL'']) = Inr (Some (Fin 150))
   \<and> max_drawdown [100, - 50] = Inr (Fin 150)
   \<and> \<not> (150 \<le> (100 :: real))
   \<and> max_drawdown [- 100, - 50] = Inr (Fin 0)
   \<and> spec_max_drawdown [- 100, - 50] = Fin 50"
  using static_metrics_snapshot[OF overdrawn_log_daily]
  by (simp add: overdrawn_log_daily Let_def np_div_def)

section \<open>Properties of the win rate\<close>

lemma count_winning_filter:
  "count_winning df ts n =
     n + length (filter (\<lambda>t. future_prices df t \<noteq> [] \<and> cell_gt (last (future_prices df t)) (close t)) ts)"
  by (induction ts arbitrary: n) (simp_all add: Let_def)

lemma future_prices_last:
  "future_prices df t \<noteq> [] \<and> cell_gt (last (future_prices df t)) (close t)
   \<longleftrightarrow> (let later = filter (\<lambda>r. ticker r = ticker t \<and> timestamp t < timestamp r) df
        in later \<noteq> [] \<and> cell_gt (close (last later)) (close t))"
  by (auto simp: future_prices_def Let_def last_map)

lemma win_rate_of_filter:
  "win_rate_of df =
     (let buys = filter (\<lambda>r. action r = ''BUY'') df;
          winning = filter (\<lambda>t. let later = filter (\<lambda>r. ticker r = ticker t \<and> timestamp t < timestamp r) df
                                 in later \<noteq> [] \<and> cell_gt (close (last later)) (close t)) buys
      in if buys = [] then 0 else real (length winning) / real (length buys) * 100)"
  unfolding win_rate_of_def count_winning_filter future_prices_last
  by (simp add: Let_def)

lemma win_rate_of_range: "0 \<le> win_rate_of df \<and> win_rate_of df \<le> 100"
proof -
  let ?buys = "filter (\<lambda>r. action r = ''BUY'') df"
  define q where "q = real (count_winning df ?buys 0) / real (length ?buys)"
  have "count_winning df ?buys 0 \<le> length ?buys"
    unfolding count_winning_filter by (simp del: filter_filter)
  then have "q \<le> 1" "0 \<le> q"
    by (simp_all add: q_def divide_le_eq_1)
  then have "0 \<le> q * 100" "q * 100 \<le> 100" by simp_all
  moreover have "win_rate_of df = (if ?buys \<noteq> [] then q * 100 else 0)"
    by (simp add: win_rate_of_def Let_def q_def)
  ultimately show ?thesis by simp
qed

lemma sorted_later_rows:
  assumes "sorted (map timestamp df)"
  shows "sort_key timestamp (filter P df) = filter P df"
  using assms by (simp add: sort_key_id_if_sorted sorted_filter)

lemma win_rate_of_sorted:
  assumes "sorted (map timestamp df)"
  shows "win_rate_of df = spec_win_rate df"
  unfolding win_rate_of_filter spec_win_rate_def spec_winning_def sorted_later_rows[OF assms]
  by (simp add: Let_def)

text \<open>
  C4, amended. The win rate is the number of winning BUY records over the number of BUY
  records, times 100, and 0 when there is no BUY record; it lies in \<open>[0, 100]\<close>. A BUY
  record wins when the log has rows of its ticker with a strictly later timestamp and the
  one of them that is last in file order has a close above the record's close; a record
  with no later row, or with a null close on either side, counts in the denominator only.
  When the log is in ascending timestamp order this is the chronologically last later
  row, and the win rate is the specification's. Both
  \<^verbatim>\<open>calculate_performance_metrics\<close> report this value whenever the valuation series
  has two points or more.
\<close>

theorem win_rate_last_later_row:
  "win_rate_of df =
     (let buys = filter (\<lambda>r. action r = ''BUY'') df;
          winning = filter (\<lambda>t. let later = filter (\<lambda>r. ticker r = ticker t \<and> timestamp t < timestamp r) df
                                 in later \<noteq> [] \<and> cell_gt (close (last later)) (close t)) buys
      in if buys = [] then 0 else real (length winning) / real (length buys) * 100)
   \<and> 0 \<le> win_rate_of df \<and> win_rate_of df \<le> 100
   \<and> (sorted (map timestamp df) \<longrightarrow> win_rate_of df = spec_win_rate df)
   \<and> (portfolio_values day tracked df = Inr pv \<and> 2 \<le> length pv \<longrightarrow>
        (\<exists>m. static_metrics df tracked = Inr (Some m) \<and> win_rate m = win_rate_of df))
   \<and> (portfolio_values hour tracked df = Inr pv' \<and> 2 \<le> length pv' \<longrightarrow>
        (\<exists>e. export_metrics_of df tracked = Inr (Some e) \<and> export_win_rate e = win_rate_of df))"
  using win_rate_of_filter[of df] win_rate_of_range[of df] win_rate_of_sorted[of df]
  by (simp add: static_metrics_snapshot export_metrics_snapshot)

lemma two_buys_log_daily:
  "portfolio_values day [''AAPL'', ''MSFT''] two_buys_log = Inr [100, 115]"
  by (simp add: portfolio_values_def two_buys_log_def mk_row_def floor_to_def day_def
      bucket_value_def isna_all_def iloc_last_def Let_def)

lemma two_buys_log_hourly:
  "portfolio_values hour [''AAPL'', ''MSFT''] two_buys_log = Inr [100, 50, 115]"
  by (simp add: portfolio_values_def two_buys_log_def mk_row_def floor_to_def hour_def
      bucket_value_def isna_all_def iloc_last_def Let_def)

lemma two_buys_log_sorted: "sorted (map timestamp two_buys_log)"
  by (simp add: two_buys_log_def mk_row_def)

theorem win_rate_last_later_row_witness:
  "sorted (map timestamp two_buys_log)
   \<and> win_rate_of two_buys_log = 50
   \<and> spec_win_rate two_buys_log = 50
   \<and> (\<exists>m. static_metrics two_buys_log [''AAPL'', ''MSFT''] = Inr (Some m) \<and> win_rate m = 50)
   \<and> (\<exists>e. export_metrics_of two_buys_log [''AAPL'', ''MSFT''] = Inr (Some e) \<and> export_win_rate e = 50)"
proof -
  have wr: "win_rate_of two_buys_log = 50"
    by (simp add: win_rate_of_def two_buys_log_def mk_row_def future_prices_def cell_gt_def Let_def)
  from win_rate_last_later_row[of two_buys_log "[''AAPL'', ''MSFT'']" "[100, 115]" "[100, 50, 115]"]
  show ?thesis
    using two_buys_log_daily two_buys_log_hourly two_buys_log_sorted wr by simp
qed

lemma backfilled_log_daily:
  "portfolio_values day [''AAPL''] backfilled_log = Inr [100, 110, 95]"
  by (simp add: portfolio_values_def backfilled_log_def mk_row_def floor_to_def day_def
      bucket_value_def isna_all_def iloc_last_def Let_def)

text \<open>
  C4, as stated, fails on a log that is not in timestamp order: a purchase at 10 is
  followed by a row of day 2 at 20 and then, later in the file, by a row of day 1 at 5.
  The chronologically last price 20 is above 10, but the source compares the last row of
  the file.
\<close>

theorem win_rate_chronological_counterexample:
  "win_rate_of backfilled_log = 0
   \<and> spec_win_rate backfilled_log = 100
   \<and> map_sum id (map_option win_rate) (static_metrics backfilled_log [''AAPL'']) = Inr (Some 0)"
proof -
  have wr: "win_rate_of backfilled_log = 0"
    by (simp add: win_rate_of_def backfilled_log_def mk_row_def future_prices_def cell_gt_def Let_def)
  have sp: "spec_win_rate backfilled_log = 100"
    by (simp add: spec_win_rate_def spec_winning_def backfilled_log_def mk_row_def cell_gt_def Let_def)
  show ?thesis
    using static_metrics_snapshot[OF backfilled_log_daily] wr sp by simp
qed

section \<open>Properties of the best and worst stock\<close>

lemma np_gt_trans: "np_gt a b \<Longrightarrow> np_gt b c \<Longrightarrow> np_gt a c"
  by (cases a; cases b; cases c) simp_all

lemma np_gt_negtrans: "np_gt a r \<Longrightarrow> \<not> np_gt a c \<Longrightarrow> np_gt c z \<Longrightarrow> np_gt c r"
  by (cases a; cases r; cases c; cases z) simp_all

lemma np_gt_negtrans_flipped: "np_gt r a \<Longrightarrow> \<not> np_gt c a \<Longrightarrow> np_gt z c \<Longrightarrow> np_gt r c"
  by (cases a; cases r; cases c; cases z) simp_all

lemma maximal_exists:
  assumes irrefl: "\<And>a. \<not> gt a a"
    and trans: "\<And>a b c. gt a b \<Longrightarrow> gt b c \<Longrightarrow> gt a c"
  shows "\<exists>c \<in> set cs. gt (snd c) r \<Longrightarrow>
         \<exists>c \<in> set cs. gt (snd c) r \<and> (\<forall>c' \<in> set cs. \<not> gt (snd c') (snd c))"
proof (induction cs arbitrary: r)
  case Nil
  then show ?case by simp
next
  case (Cons x cs)
  show ?case
  proof (cases "gt (snd x) r")
    case True
    show ?thesis
    proof (cases "\<exists>c \<in> set cs. gt (snd c) (snd x)")
      case True
      from Cons.IH[OF True] obtain c where c: "c \<in> set cs" "gt (snd c) (snd x)"
        "\<forall>c' \<in> set cs. \<not> gt (snd c') (snd c)" by blast
      have "gt (snd c) r" using c(2) \<open>gt (snd x) r\<close> trans by blast
      moreover have "\<not> gt (snd x) (snd c)" using c(2) trans irrefl by blast
      ultimately show ?thesis using c by auto
    next
      case False
      then show ?thesis using True irrefl by auto
    qed
  next
    case False
    then have "\<exists>c \<in> set cs. gt (snd c) r" using Cons.prems by auto
    from Cons.IH[OF this] obtain c where c: "c \<in> set cs" "gt (snd c) r"
      "\<forall>c' \<in> set cs. \<not> gt (snd c') (snd c)" by blast
    have "\<not> gt (snd x) (snd c)" using c(2) False trans by blast
    then show ?thesis using c by auto
  qed
qed

lemma pick_first_extreme:
  assumes irrefl: "\<And>a. \<not> gt a a"
    and trans: "\<And>a b c. gt a b \<Longrightarrow> gt b c \<Longrightarrow> gt a c"
    and negtrans: "\<And>a r c z. gt a r \<Longrightarrow> \<not> gt a c \<Longrightarrow> gt c z \<Longrightarrow> gt c r"
  shows "fst (pick gt cs (b, br)) =
           (case find (\<lambda>c. gt (snd c) br \<and> (\<forall>c' \<in> set cs. \<not> gt (snd c') (snd c))) cs of
              None \<Rightarrow> b | Some c \<Rightarrow> Some c)"
proof (induction cs arbitrary: b br)
  case Nil
  show ?case by simp
next
  case (Cons x cs)
  show ?case
  proof (cases "gt (snd x) br")
    case True
    note xbr = True
    have step: "fst (pick gt (x # cs) (b, br)) =
        (case find (\<lambda>c. gt (snd c) (snd x) \<and> (\<forall>c' \<in> set cs. \<not> gt (snd c') (snd c))) cs of
           None \<Rightarrow> Some x | Some c \<Rightarrow> Some c)"
      using True by (simp add: Cons.IH)
    show ?thesis
    proof (cases "\<exists>c \<in> set cs. gt (snd c) (snd x)")
      case False
      then have "find (\<lambda>c. gt (snd c) (snd x) \<and> (\<forall>c' \<in> set cs. \<not> gt (snd c') (snd c))) cs = None"
        by (auto simp: find_None_iff)
      then show ?thesis
        unfolding step using False xbr irrefl by simp
    next
      case True
      have "\<exists>c \<in> set cs. gt (snd c) (snd x) \<and> (\<forall>c' \<in> set cs. \<not> gt (snd c') (snd c))"
        by (rule maximal_exists[of gt]) (use irrefl trans True in blast)+
      then have ex: "find (\<lambda>c. gt (snd c) (snd x) \<and> (\<forall>c' \<in> set cs. \<not> gt (snd c') (snd c))) cs \<noteq> None"
        unfolding find_None_iff by blast
      have same: "find (\<lambda>c. gt (snd c) br \<and> (\<forall>c' \<in> set (x # cs). \<not> gt (snd c') (snd c))) cs
                = find (\<lambda>c. gt (snd c) (snd x) \<and> (\<forall>c' \<in> set cs. \<not> gt (snd c') (snd c))) cs"
      proof (rule find_cong[OF refl])
        fix c assume "c \<in> set cs"
        show "(gt (snd c) br \<and> (\<forall>c' \<in> set (x # cs). \<not> gt (snd c') (snd c)))
            = (gt (snd c) (snd x) \<and> (\<forall>c' \<in> set cs. \<not> gt (snd c') (snd c)))"
        proof (cases "\<forall>c' \<in> set cs. \<not> gt (snd c') (snd c)")
          case False
          then show ?thesis by auto
        next
          case maxc: True
          from True obtain a where a: "a \<in> set cs" "gt (snd a) (snd x)" by blast
          have na: "\<not> gt (snd a) (snd c)" using maxc a(1) by blast
          show ?thesis
          proof (cases "gt (snd c) br")
            case True
            have "gt (snd c) (snd x)" using negtrans[OF a(2) na True] .
            moreover have "\<not> gt (snd x) (snd c)" using calculation trans irrefl by blast
            ultimately show ?thesis using True maxc by auto
          next
            case False
            then have "\<not> gt (snd c) (snd x)" using xbr trans by blast
            then show ?thesis using False by auto
          qed
        qed
      qed
      have px: "\<not> (gt (snd x) br \<and> (\<forall>c' \<in> set (x # cs). \<not> gt (snd c') (snd x)))"
        using True by auto
      have "find (\<lambda>c. gt (snd c) br \<and> (\<forall>c' \<in> set (x # cs). \<not> gt (snd c') (snd c))) (x # cs)
          = find (\<lambda>c. gt (snd c) br \<and> (\<forall>c' \<in> set (x # cs). \<not> gt (snd c') (snd c))) cs"
        using px by (simp only: find.simps if_False)
      also note same
      finally have whole:
        "find (\<lambda>c. gt (snd c) br \<and> (\<forall>c' \<in> set (x # cs). \<not> gt (snd c') (snd c))) (x # cs)
          = find (\<lambda>c. gt (snd c) (snd x) \<and> (\<forall>c' \<in> set cs. \<not> gt (snd c') (snd c))) cs" .
      show ?thesis
        unfolding step whole using ex by (auto split: option.splits)
    qed
  next
    case False
    have step: "fst (pick gt (x # cs) (b, br)) =
        (case find (\<lambda>c. gt (snd c) br \<and> (\<forall>c' \<in> set cs. \<not> gt (snd c') (snd c))) cs of
           None \<Rightarrow> b | Some c \<Rightarrow> Some c)"
      using False by (simp add: Cons.IH)
    have same: "find (\<lambda>c. gt (snd c) br \<and> (\<forall>c' \<in> set (x # cs). \<not> gt (snd c') (snd c))) cs
              = find (\<lambda>c. gt (snd c) br \<and> (\<forall>c' \<in> set cs. \<not> gt (snd c') (snd c))) cs"
    proof (rule find_cong[OF refl])
      fix c assume "c \<in> set cs"
      have "\<not> gt (snd x) (snd c)" if "gt (snd c) br"
        using that False trans by blast
      then show "(gt (snd c) br \<and> (\<forall>c' \<in> set (x # cs). \<not> gt (snd c') (snd c)))
          = (gt (snd c) br \<and> (\<forall>c' \<in> set cs. \<not> gt (snd c') (snd c)))"
        by auto
    qed
    show ?thesis
      unfolding step using False same by simp
  qed
qed

lemma best_worst_loop_pick:
  "best_worst_loop df ss st =
     \<lparr>best_stock = fst (pick np_gt (candidates df ss) (best_stock st, best_return st)),
      worst_stock = fst (pick np_lt (candidates df ss) (worst_stock st, worst_return st)),
      best_return = snd (pick np_gt (candidates df ss) (best_stock st, best_return st)),
      worst_return = snd (pick np_lt (candidates df ss) (worst_stock st, worst_return st))\<rparr>"
proof (induction ss arbitrary: st)
  case Nil
  show ?case by (simp add: candidates_def)
next
  case (Cons s ss)
  show ?case
    by (simp add: Let_def Cons.IH candidates_def)
qed

lemma stock_return_cases:
  "stock_return sd =
     (case (close (hd sd), close (last sd)) of
        (Some f, Some l) \<Rightarrow>
          (if f \<noteq> 0 then Fin ((l - f) / f * 100)
           else if l > 0 then PInf else if l < 0 then NInf else NaN)
      | _ \<Rightarrow> NaN)"
  by (simp add: stock_return_def np_div_def split: option.splits)

lemma np_lt_irrefl: "\<not> np_lt a a"
  by (simp add: np_lt_def np_gt_irrefl)

lemma np_lt_trans: "np_lt a b \<Longrightarrow> np_lt b c \<Longrightarrow> np_lt a c"
  unfolding np_lt_def by (rule np_gt_trans)

lemma np_lt_negtrans: "np_lt a r \<Longrightarrow> \<not> np_lt a c \<Longrightarrow> np_lt c z \<Longrightarrow> np_lt c r"
  unfolding np_lt_def by (rule np_gt_negtrans_flipped)

lemma option_case_id: "(case x of None \<Rightarrow> None | Some c \<Rightarrow> Some c) = x"
  by (cases x) simp_all

lemma best_first_maximum:
  "fst (pick np_gt cs (None, NInf)) =
     find (\<lambda>c. np_gt (snd c) NInf \<and> list_all (\<lambda>c'. \<not> np_gt (snd c') (snd c)) cs) cs"
proof -
  have "fst (pick np_gt cs (None, NInf)) =
      (case find (\<lambda>c. np_gt (snd c) NInf \<and> (\<forall>c' \<in> set cs. \<not> np_gt (snd c') (snd c))) cs of
         None \<Rightarrow> None | Some c \<Rightarrow> Some c)"
    by (rule pick_first_extreme[OF np_gt_irrefl np_gt_trans np_gt_negtrans])
  then show ?thesis
    by (simp only: option_case_id list_all_iff)
qed

lemma worst_first_minimum:
  "fst (pick np_lt cs (None, PInf)) =
     find (\<lambda>c. np_lt (snd c) PInf \<and> list_all (\<lambda>c'. \<not> np_lt (snd c') (snd c)) cs) cs"
proof -
  have "fst (pick np_lt cs (None, PInf)) =
      (case find (\<lambda>c. np_lt (snd c) PInf \<and> (\<forall>c' \<in> set cs. \<not> np_lt (snd c') (snd c))) cs of
         None \<Rightarrow> None | Some c \<Rightarrow> Some c)"
    by (rule pick_first_extreme[OF np_lt_irrefl np_lt_trans np_lt_negtrans])
  then show ?thesis
    by (simp only: option_case_id list_all_iff)
qed

text \<open>
  C6, amended. A tracked ticker enters the comparison when it has at least two rows in
  the log, whether or not their close cells are null; its return is
  \<open>(last - first) / first \<times> 100\<close> of the close cells of its first and last row in
  file order, and NaN when one of the two cells is null, whatever the rows between them
  hold. The best stock is the first ticker, in the order of \<^verbatim>\<open>pm.stocks\<close>, whose
  return no other return exceeds, and the worst stock the first one that exceeds no
  other return; so ties go to the ticker met first. A zero first price is not guarded:
  nothing is raised, and the return is \<open>+inf\<close>, \<open>-inf\<close> or NaN as the last price is
  positive, negative or zero. \<open>+inf\<close> can be reported as the best return and \<open>-inf\<close>
  as the worst; a NaN return is never selected. The snapshot of
  generate_static_dashboard.py reports these two stocks.
\<close>

theorem best_worst_first_extreme:
  "(let cs = candidates df tracked; bw = best_worst_stocks df tracked
    in best_stock bw =
         find (\<lambda>c. np_gt (snd c) NInf \<and> list_all (\<lambda>c'. \<not> np_gt (snd c') (snd c)) cs) cs
       \<and> worst_stock bw =
         find (\<lambda>c. np_lt (snd c) PInf \<and> list_all (\<lambda>c'. \<not> np_lt (snd c') (snd c)) cs) cs)
   \<and> (\<forall>sd. stock_return sd =
          (case (close (hd sd), close (last sd)) of
             (Some f, Some l) \<Rightarrow>
               (if f \<noteq> 0 then Fin ((l - f) / f * 100)
                else if l > 0 then PInf else if l < 0 then NInf else NaN)
           | _ \<Rightarrow> NaN))
   \<and> (portfolio_values day tracked df = Inr pv \<and> 2 \<le> length pv \<longrightarrow>
        (\<exists>m. static_metrics df tracked = Inr (Some m)
             \<and> best m = best_stock (best_worst_stocks df tracked)
             \<and> worst m = worst_stock (best_worst_stocks df tracked)))"
proof -
  have snap: "portfolio_values day tracked df = Inr pv \<and> 2 \<le> length pv \<longrightarrow>
        (\<exists>m. static_metrics df tracked = Inr (Some m)
             \<and> best m = best_stock (best_worst_stocks df tracked)
             \<and> worst m = worst_stock (best_worst_stocks df tracked))"
    by (simp add: static_metrics_snapshot)
  have sel: "best_stock (best_worst_stocks df tracked) = fst (pick np_gt (candidates df tracked) (None, NInf))"
    "worst_stock (best_worst_stocks df tracked) = fst (pick np_lt (candidates df tracked) (None, PInf))"
    by (simp_all add: best_worst_stocks_def best_worst_loop_pick)
  have ret: "\<forall>sd. stock_return sd =
          (case (close (hd sd), close (last sd)) of
             (Some f, Some l) \<Rightarrow>
               (if f \<noteq> 0 then Fin ((l - f) / f * 100)
                else if l > 0 then PInf else if l < 0 then NInf else NaN)
           | _ \<Rightarrow> NaN)"
    using stock_return_cases by blast
  have "best_stock (best_worst_stocks df tracked) =
          find (\<lambda>c. np_gt (snd c) NInf
                  \<and> list_all (\<lambda>c'. \<not> np_gt (snd c') (snd c)) (candidates df tracked))
            (candidates df tracked)"
    "worst_stock (best_worst_stocks df tracked) =
          find (\<lambda>c. np_lt (snd c) PInf
                  \<and> list_all (\<lambda>c'. \<not> np_lt (snd c') (snd c)) (candidates df tracked))
            (candidates df tracked)"
    unfolding sel by (rule best_first_maximum, rule worst_first_minimum)
  then show ?thesis
    unfolding Let_def using ret snap by blast
qed

lemma tie_log_candidates:
  "candidates tie_log [''AAPL'', ''MSFT'', ''GOOG'', ''NVDA'', ''TSLA'']
     = [(''AAPL'', Fin 10), (''MSFT'', Fin 10), (''GOOG'', Fin (- 20))]"
  by (simp add: candidates_def tie_log_def mk_row_def stock_return_def np_div_def)

lemma tie_log_daily:
  "portfolio_values day [''AAPL'', ''MSFT'', ''GOOG'', ''NVDA'', ''TSLA''] tie_log = Inr [100, 100]"
  by (simp add: portfolio_values_def tie_log_def mk_row_def floor_to_def day_def
      bucket_value_def isna_all_def iloc_last_def Let_def)

text \<open>
  AAPL and MSFT both return 10 per cent, GOOG loses 20, NVDA has one row and TSLA none:
  the snapshot names AAPL, the first of the two, as best and GOOG as worst.
\<close>

theorem best_worst_first_extreme_witness:
  "candidates tie_log [''AAPL'', ''MSFT'', ''GOOG'', ''NVDA'', ''TSLA'']
     = [(''AAPL'', Fin 10), (''MSFT'', Fin 10), (''GOOG'', Fin (- 20))]
   \<and> portfolio_values day [''AAPL'', ''MSFT'', ''GOOG'', ''NVDA'', ''TSLA''] tie_log = Inr [100, 100]
   \<and> (\<exists>m. static_metrics tie_log [''AAPL'', ''MSFT'', ''GOOG'', ''NVDA'', ''TSLA''] = Inr (Some m)
         \<and> best m = Some (''AAPL'', Fin 10)
         \<and> worst m = Some (''GOOG'', Fin (- 20)))
   \<and> stock_return (filter (\<lambda>r. ticker r = ''GOOG'') tie_log) = Fin (- 20)
   \<and> stock_return null_first_close_log = NaN"
proof -
  note inst = best_worst_first_extreme[of tie_log "[''AAPL'', ''MSFT'', ''GOOG'', ''NVDA'', ''TSLA'']"
      "[100, 100]"]
  have ret: "\<forall>sd. stock_return sd =
          (case (close (hd sd), close (last sd)) of
             (Some f, Some l) \<Rightarrow>
               (if f \<noteq> 0 then Fin ((l - f) / f * 100)
                else if l > 0 then PInf else if l < 0 then NInf else NaN)
           | _ \<Rightarrow> NaN)"
    by (rule conjunct1[OF conjunct2[OF inst]])
  have r1: "stock_return (filter (\<lambda>r. ticker r = ''GOOG'') tie_log) = Fin (- 20)"
    using ret[rule_format, of "filter (\<lambda>r. ticker r = ''GOOG'') tie_log"]
    by (simp add: tie_log_def mk_row_def)
  have r2: "stock_return null_first_close_log = NaN"
    using ret[rule_format, of null_first_close_log]
    by (simp add: null_first_close_log_def mk_row_def)
  have sel: "best_stock (best_worst_stocks tie_log [''AAPL'', ''MSFT'', ''GOOG'', ''NVDA'', ''TSLA''])
        = Some (''AAPL'', Fin 10)
      \<and> worst_stock (best_worst_stocks tie_log [''AAPL'', ''MSFT'', ''GOOG'', ''NVDA'', ''TSLA''])
        = Some (''GOOG'', Fin (- 20))"
    using conjunct1[OF inst] unfolding Let_def tie_log_candidates
    by (simp add: np_lt_def)
  have snap: "\<exists>m. static_metrics tie_log [''AAPL'', ''MSFT'', ''GOOG'', ''NVDA'', ''TSLA''] = Inr (Some m)
         \<and> best m = best_stock (best_worst_stocks tie_log [''AAPL'', ''MSFT'', ''GOOG'', ''NVDA'', ''TSLA''])
         \<and> worst m = worst_stock (best_worst_stocks tie_log [''AAPL'', ''MSFT'', ''GOOG'', ''NVDA'', ''TSLA''])"
    using conjunct2[OF conjunct2[OF inst]] tie_log_daily by simp
  show ?thesis
    using tie_log_candidates tie_log_daily r1 r2 sel snap by simp
qed

lemma zero_first_price_log_daily:
  "portfolio_values day [''AAPL''] zero_first_price_log = Inr [100, 100]"
  by (simp add: portfolio_values_def zero_first_price_log_def mk_row_def floor_to_def day_def
      bucket_value_def isna_all_def iloc_last_def Let_def)

lemma null_first_close_log_daily:
  "portfolio_values day [''AAPL''] null_first_close_log = Inr [100, 100, 100]"
  by (simp add: portfolio_values_def null_first_close_log_def mk_row_def floor_to_def day_def
      bucket_value_def isna_all_def iloc_last_def Let_def)

text \<open>
  C6, as stated, fails at a zero first price: a ticker quoted at 0 and then at 5 gets the
  return \<open>+inf\<close>, which is reported as the best stock, while the worst stock stays
  \<^verbatim>\<open>"N/A"\<close>. Neither 0 nor a marker stands in for the undefined return. It fails
  also for a ticker whose first row has no price: with the close observations 10 and 20
  after it, the claim gives the return 100 per cent, while the source computes NaN from
  the first row and reports no best and no worst stock.
\<close>

theorem zero_first_price_counterexample:
  "stock_return zero_first_price_log = PInf
   \<and> map_sum id (map_option best) (static_metrics zero_first_price_log [''AAPL''])
       = Inr (Some (Some (''AAPL'', PInf)))
   \<and> map_sum id (map_option worst) (static_metrics zero_first_price_log [''AAPL''])
       = Inr (Some None)
   \<and> dropna (map close (filter (\<lambda>r. ticker r = ''AAPL'') null_first_close_log)) = [10, 20]
   \<and> ((20 - 10) / 10 * 100 :: real) = 100
   \<and> stock_return (filter (\<lambda>r. ticker r = ''AAPL'') null_first_close_log) = NaN
   \<and> map_sum id (map_option best) (static_metrics null_first_close_log [''AAPL''])
       = Inr (Some None)
   \<and> map_sum id (map_option worst) (static_metrics null_first_close_log [''AAPL''])
       = Inr (Some None)"
proof -
  have r: "stock_return zero_first_price_log = PInf"
    by (simp add: stock_return_def zero_first_price_log_def mk_row_def np_div_def)
  have f: "filter (\<lambda>r. ticker r = ''AAPL'') zero_first_price_log = zero_first_price_log"
    by (simp add: zero_first_price_log_def mk_row_def)
  have l: "length zero_first_price_log = 2" "zero_first_price_log \<noteq> []"
    by (simp_all add: zero_first_price_log_def)
  have bw: "best_worst_stocks zero_first_price_log [''AAPL'']
      = \<lparr>best_stock = Some (''AAPL'', PInf), worst_stock = None, best_return = PInf, worst_return = PInf\<rparr>"
    by (simp add: best_worst_stocks_def f l r Let_def np_lt_def)
  have f': "filter (\<lambda>r. ticker r = ''AAPL'') null_first_close_log = null_first_close_log"
    by (simp add: null_first_close_log_def mk_row_def)
  have c': "dropna (map close null_first_close_log) = [10, 20]"
    by (simp add: null_first_close_log_def mk_row_def)
  have r': "stock_return null_first_close_log = NaN"
    by (simp add: stock_return_def null_first_close_log_def mk_row_def)
  have l': "length null_first_close_log = 3" "null_first_close_log \<noteq> []"
    by (simp_all add: null_first_close_log_def)
  have bw': "best_worst_stocks null_first_close_log [''AAPL'']
      = \<lparr>best_stock = None, worst_stock = None, best_return = NInf, worst_return = PInf\<rparr>"
    by (simp add: best_worst_stocks_def f' l' r' Let_def np_lt_def)
  show ?thesis
    using static_metrics_snapshot[OF zero_first_price_log_daily]
      static_metrics_snapshot[OF null_first_close_log_daily] r bw f' c' r' bw' by simp
qed

section \<open>Properties of the simple dashboard\<close>

lemma last_valid_dropna:
  "last_valid xs found = (if dropna xs = [] then found else Some (last (dropna xs)))"
  by (induction xs arbitrary: found rule: dropna.induct) simp_all

lemma tickers_sorted_df:
  assumes "is_sort_values df sorted_df"
  shows "sort (remdups (map ticker sorted_df)) = sort (remdups (map ticker df))"
proof -
  have "set (map ticker sorted_df) = set (map ticker df)"
    using is_sort_values_set[OF assms] by simp
  then show ?thesis
    by (metis sorted_list_of_set_sort_remdups)
qed

lemma groupby_ticker_last_cells:
  assumes "is_sort_values df (sort_values df)"
  shows "groupby_ticker_last sort_values df =
     map (\<lambda>k. (k, \<lparr>latest_close =
                      (if ticker_column sort_values close df k = [] then None
                       else Some (last (ticker_column sort_values close df k))),
                    latest_position =
                      (if ticker_column sort_values position_after df k = [] then None
                       else Some (last (ticker_column sort_values position_after df k))),
                    latest_cash =
                      (if ticker_column sort_values cash_after df k = [] then None
                       else Some (last (ticker_column sort_values cash_after df k)))\<rparr>))
       (sort (remdups (map ticker df)))"
  by (simp add: groupby_ticker_last_def Let_def tickers_sorted_df[OF assms] last_valid_dropna
      ticker_column_def)

lemma holdings_loop_foldl:
  "holdings_loop latest tv =
     foldl np_add tv
       (map (\<lambda>kr. case (latest_position (snd kr), latest_close (snd kr)) of
                     (Some p, Some c) \<Rightarrow> Fin (of_int p * c) | _ \<Rightarrow> NaN)
          (filter (\<lambda>kr. latest_position (snd kr) \<noteq> None \<and> latest_cash (snd kr) \<noteq> None) latest))"
  by (induction latest arbitrary: tv) simp_all

lemma dropna_map_if:
  "dropna (map (\<lambda>k. if col k = [] then None else Some (last (col k))) ks)
     = map (\<lambda>k. last (col k)) (filter (\<lambda>k. col k \<noteq> []) ks)"
  by (induction ks) simp_all

lemma dashboard_cash_last_funded:
  assumes "is_sort_values df (sort_values df)"
  shows "dashboard_cash (groupby_ticker_last sort_values df) =
     (let funded = filter (\<lambda>k. ticker_column sort_values cash_after df k \<noteq> [])
                     (sort (remdups (map ticker df)))
      in if funded = [] then 0 else last (ticker_column sort_values cash_after df (last funded)))"
  by (simp add: dashboard_cash_def groupby_ticker_last_cells[where sort_values = sort_values and df = df, OF assms] comp_def dropna_map_if
      Let_def last_map)

lemma holdings_loop_cells:
  "holdings_loop
     (map (\<lambda>k. (k, \<lparr>latest_close = (if c k = [] then None else Some (last (c k))),
                    latest_position = (if p k = [] then None else Some (last (p k))),
                    latest_cash = (if q k = [] then None else Some (last (q k)))\<rparr>)) ks) tv
   = foldl np_add tv
       (map (\<lambda>k. if c k = [] then NaN else Fin (of_int (last (p k)) * last (c k)))
          (filter (\<lambda>k. p k \<noteq> [] \<and> q k \<noteq> []) ks))"
  by (induction ks arbitrary: tv) simp_all

lemma holdings_of_latest:
  assumes "is_sort_values df (sort_values df)"
  shows "holdings_loop (groupby_ticker_last sort_values df) (Fin 0) =
     foldl np_add (Fin 0)
       (map (\<lambda>k. if ticker_column sort_values close df k = [] then NaN
                  else Fin (of_int (last (ticker_column sort_values position_after df k))
                            * last (ticker_column sort_values close df k)))
          (filter (\<lambda>k. ticker_column sort_values position_after df k \<noteq> []
                        \<and> ticker_column sort_values cash_after df k \<noteq> [])
             (sort (remdups (map ticker df)))))"
  unfolding groupby_ticker_last_cells[where sort_values = sort_values and df = df, OF assms] by (rule holdings_loop_cells)

text \<open>
  C10, amended. Let the tickers of the log be taken in name order and, for each, the
  non-null cells of a column over all its rows in the order of the sorted frame
  (ascending timestamps; rows of equal timestamp as the sort leaves them, which is the
  file order only for a stable sort). A ticker contributes to the total exactly when it
  has a non-null \<^verbatim>\<open>position_after\<close> and a non-null \<^verbatim>\<open>cash_after\<close> somewhere among
  its rows, not necessarily in its latest row nor in one row; its contribution is its
  last non-null \<^verbatim>\<open>position_after\<close> times its last non-null \<^verbatim>\<open>close\<close>, NaN if it
  has no price. The cash term is the last non-null \<^verbatim>\<open>cash_after\<close> of the last ticker
  in name order that has one, 0 if there is none.
\<close>

theorem dashboard_value_from_last_valid_cells:
  assumes "is_sort_values df (sort_values df)"
  shows "let ks = sort (remdups (map ticker df));
        held = filter (\<lambda>k. ticker_column sort_values position_after df k \<noteq> []
                          \<and> ticker_column sort_values cash_after df k \<noteq> []) ks;
        funded = filter (\<lambda>k. ticker_column sort_values cash_after df k \<noteq> []) ks;
        cash_term = (if funded = [] then 0
                     else last (ticker_column sort_values cash_after df (last funded)))
    in dashboard_cash (groupby_ticker_last sort_values df) = cash_term
       \<and> dashboard_total_value sort_values df =
           np_add
             (foldl np_add (Fin 0)
                (map (\<lambda>k. if ticker_column sort_values close df k = [] then NaN
                           else Fin (of_int (last (ticker_column sort_values position_after df k))
                                     * last (ticker_column sort_values close df k))) held))
             (Fin cash_term)"
  by (simp add: Let_def dashboard_total_value_def holdings_of_latest[where sort_values = sort_values and df = df, OF assms]
      dashboard_cash_last_funded[where sort_values = sort_values and df = df, OF assms])

lemma two_ticker_log_tickers: "sort (remdups (map ticker two_ticker_log)) = [''AAPL'', ''MSFT'']"
proof -
  have "map ticker two_ticker_log = [''MSFT'', ''AAPL'', ''AAPL'']"
    by (simp add: two_ticker_log_def mk_row_def)
  moreover have "sort (remdups [''MSFT'', ''AAPL'', ''AAPL'']) = [''AAPL'', ''MSFT'']"
    by code_simp
  ultimately show ?thesis by simp
qed

lemma same_time_log_tickers: "sort (remdups (map ticker same_time_log)) = [''AAPL'']"
  by (simp add: same_time_log_def mk_row_def)

text \<open>
  In the first log the latest checkpoint is the row of AAPL at time 5 with cash 300, but
  the cash term is 500, from the older row of MSFT, the last ticker in name order. The
  second log has two rows of one ticker at one timestamp: the stable sort makes the total
  374, the reversing sort 350.
\<close>

theorem dashboard_value_from_last_valid_cells_witness:
  "is_sort_values two_ticker_log (stable_sort_values two_ticker_log)
   \<and> dashboard_cash (groupby_ticker_last stable_sort_values two_ticker_log) = 500
   \<and> dashboard_total_value stable_sort_values two_ticker_log = Fin 760
   \<and> cash_after (last (filter is_checkpoint (stable_sort_values two_ticker_log))) = Some 300
   \<and> is_sort_values same_time_log (stable_sort_values same_time_log)
   \<and> dashboard_total_value stable_sort_values same_time_log = Fin 374
   \<and> is_sort_values same_time_log (reversing_sort_values same_time_log)
   \<and> dashboard_total_value reversing_sort_values same_time_log = Fin 350"
proof -
  have c: "cash_after (last (filter is_checkpoint (stable_sort_values two_ticker_log))) = Some 300"
    by (simp add: two_ticker_log_def mk_row_def is_checkpoint_def stable_sort_values_def)
  have a: "dashboard_cash (groupby_ticker_last stable_sort_values two_ticker_log) = 500
      \<and> dashboard_total_value stable_sort_values two_ticker_log = Fin 760"
    using dashboard_value_from_last_valid_cells[where sort_values = stable_sort_values
        and df = two_ticker_log, OF stable_sort_values_admissible]
    unfolding Let_def two_ticker_log_tickers
    by (simp add: ticker_column_def two_ticker_log_def mk_row_def stable_sort_values_def)
  have b: "dashboard_total_value stable_sort_values same_time_log = Fin 374"
    using dashboard_value_from_last_valid_cells[where sort_values = stable_sort_values
        and df = same_time_log, OF stable_sort_values_admissible]
    unfolding Let_def same_time_log_tickers
    by (simp add: ticker_column_def same_time_log_def mk_row_def stable_sort_values_def)
  have d: "dashboard_total_value reversing_sort_values same_time_log = Fin 350"
    using dashboard_value_from_last_valid_cells[where sort_values = reversing_sort_values
        and df = same_time_log, OF reversing_sort_values_admissible]
    unfolding Let_def same_time_log_tickers
    by (simp add: ticker_column_def same_time_log_def mk_row_def reversing_sort_values_def)
  show ?thesis
    using a b c d stable_sort_values_admissible reversing_sort_values_admissible by simp
qed

lemma stale_checkpoint_log_sorted:
  "stable_sort_values stale_checkpoint_log = stale_checkpoint_log"
  "reversing_sort_values stale_checkpoint_log = stale_checkpoint_log"
  by (simp_all add: stable_sort_values_def reversing_sort_values_def stale_checkpoint_log_def
      mk_row_def)

lemma stale_checkpoint_log_tickers:
  "sort (remdups (map ticker stale_checkpoint_log)) = [''AAPL'']"
  by (simp add: stale_checkpoint_log_def mk_row_def)

text \<open>
  C10, as stated, fails when a ticker's latest row is a plain price row: the latest row
  of AAPL has neither position nor cash, so the claim gives the total 0, while the source
  takes position 10 and cash 100 from the older row and the price 6 from the latest one.
  The two rows have different timestamps, so every admissible sort orders them alike.
\<close>

theorem own_latest_row_counterexample:
  "dashboard_total_value stable_sort_values stale_checkpoint_log = Fin 160
   \<and> claimed_total_value stable_sort_values stale_checkpoint_log = Fin 0
   \<and> dashboard_total_value reversing_sort_values stale_checkpoint_log = Fin 160
   \<and> claimed_total_value reversing_sort_values stale_checkpoint_log = Fin 0"
proof -
  have v: "dashboard_total_value srt stale_checkpoint_log = Fin 160"
    if "srt stale_checkpoint_log = stale_checkpoint_log" for srt
    unfolding dashboard_total_value_def groupby_ticker_last_def Let_def that
      stale_checkpoint_log_tickers
    by (simp add: stale_checkpoint_log_def mk_row_def dashboard_cash_def)
  have c: "claimed_total_value srt stale_checkpoint_log = Fin 0"
    if "srt stale_checkpoint_log = stale_checkpoint_log" for srt
    unfolding claimed_total_value_def own_latest_rows_def Let_def that
      stale_checkpoint_log_tickers
    by (simp add: stale_checkpoint_log_def mk_row_def)
  show ?thesis
    using v c stale_checkpoint_log_sorted by simp
qed

end
